theory Spec2Isabelle
  imports Main
begin

section \<open>Python strings\<close>

text \<open>
  A Python \<open>str\<close> is modelled as a \<open>string\<close>; one \<open>char\<close> stands for one code
  point (so \<open>length\<close> is Python's \<open>len\<close>), restricted to the code points below 256.
\<close>

definition nl :: string where
  "nl = [CHR 0x0A]"

definition py_isspace :: "char \<Rightarrow> bool" where
  \<comment> \<open>the code points below 256 for which \<open>str.isspace\<close> holds\<close>
  "py_isspace c =
     (let n = (of_char c :: nat)
      in (9 \<le> n \<and> n \<le> 13) \<or> (28 \<le> n \<and> n \<le> 32) \<or> n = 133 \<or> n = 160)"

definition py_strip :: "string \<Rightarrow> string" where
  \<comment> \<open>\<open>s.strip()\<close>\<close>
  "py_strip s = rev (dropWhile py_isspace (rev (dropWhile py_isspace s)))"

fun py_join :: "string \<Rightarrow> string list \<Rightarrow> string" where
  \<comment> \<open>\<open>sep.join(xs)\<close>\<close>
  "py_join sep [] = []"
| "py_join sep [x] = x"
| "py_join sep (x # y # r) = x @ sep @ py_join sep (y # r)"

fun py_split :: "char \<Rightarrow> string \<Rightarrow> string list" where
  \<comment> \<open>\<open>s.split(c)\<close> for a one-character separator: always at least one piece\<close>
  "py_split c [] = [[]]"
| "py_split c (x # xs) =
     (if x = c then [] # py_split c xs
      else (case py_split c xs of
              [] \<Rightarrow> [[x]]
            | w # ws \<Rightarrow> (x # w) # ws))"

fun ws_words :: "string \<Rightarrow> string list" where
  \<comment> \<open>the maximal runs of non-whitespace, as the parser splits a \<open>class\<close> attribute\<close>
  "ws_words [] = []"
| "ws_words (c # cs) =
     (if py_isspace c then ws_words cs
      else (case cs of
              [] \<Rightarrow> [[c]]
            | d # _ \<Rightarrow>
                if py_isspace d then [c] # ws_words cs
                else (case ws_words cs of
                        [] \<Rightarrow> [[c]]
                      | w # ws \<Rightarrow> (c # w) # ws)))"

definition py_lower_char :: "char \<Rightarrow> char" where
  "py_lower_char c =
     (let n = (of_char c :: nat)
      in if (65 \<le> n \<and> n \<le> 90) \<or> (192 \<le> n \<and> n \<le> 222 \<and> n \<noteq> 215)
         then char_of (n + 32) else c)"

definition py_lower :: "string \<Rightarrow> string" where
  \<comment> \<open>\<open>s.lower()\<close>\<close>
  "py_lower s = map py_lower_char s"

definition startswith :: "string \<Rightarrow> string \<Rightarrow> bool" where
  \<comment> \<open>\<open>s.startswith(p)\<close>\<close>
  "startswith s p = (take (length p) s = p)"

fun py_in :: "string \<Rightarrow> string \<Rightarrow> bool" where
  \<comment> \<open>\<open>sub in s\<close>: \<open>sub\<close> occurs in \<open>s\<close> as a contiguous run\<close>
  "py_in sub [] = (sub = [])"
| "py_in sub (c # cs) = (startswith (c # cs) sub \<or> py_in sub cs)"

definition digit_char :: "nat \<Rightarrow> char" where
  "digit_char d = char_of (48 + d)"

fun py_str :: "nat \<Rightarrow> string" where
  \<comment> \<open>\<open>str(n)\<close> of a non-negative integer, as an f-string renders it\<close>
  "py_str n = (if n < 10 then [digit_char n] else py_str (n div 10) @ [digit_char (n mod 10)])"

declare py_str.simps [simp del]

section \<open>The parsed document\<close>

text \<open>
  The tree that \<open>BeautifulSoup(response.content, 'html.parser')\<close> builds. A \<open>Tag\<close> has a
  name, its attribute dictionary (an association list, read with \<open>map_of\<close>) and its
  children. A string child is a \<open>NavigableString\<close> when \<open>get_text\<close> reads it (the
  classes NavigableString and CData) and an \<open>OtherString\<close> when it does not (comments,
  doctype, declarations, script and stylesheet text). The soup object itself is the
  root \<open>Tag\<close>; every query below searches the descendants of the node it is called on,
  never the node itself.
\<close>

datatype node =
    NavigableString string
  | OtherString string
  | Tag string "(string \<times> string) list" "node list"

type_synonym soup = node

fun contents :: "node \<Rightarrow> node list" where
  "contents (Tag n a cs) = cs"
| "contents _ = []"

fun get_attr :: "node \<Rightarrow> string \<Rightarrow> string option" where
  \<comment> \<open>\<open>tag.get(key)\<close>\<close>
  "get_attr (Tag n a cs) k = map_of a k"
| "get_attr _ k = None"

fun tag_named :: "string \<Rightarrow> node \<Rightarrow> bool" where
  "tag_named m (Tag n a cs) = (n = m)"
| "tag_named m _ = False"

fun name_in :: "string list \<Rightarrow> node \<Rightarrow> bool" where
  "name_in ns (Tag n a cs) = (n \<in> set ns)"
| "name_in ns _ = False"

fun subtree :: "node \<Rightarrow> node list" where
  \<comment> \<open>a node followed by everything below it, in document order\<close>
  "subtree (Tag n a cs) = Tag n a cs # concat (map subtree cs)"
| "subtree (NavigableString s) = [NavigableString s]"
| "subtree (OtherString s) = [OtherString s]"

definition descendants :: "node \<Rightarrow> node list" where
  \<comment> \<open>\<open>tag.descendants\<close>\<close>
  "descendants x = concat (map subtree (contents x))"

definition find_all :: "(node \<Rightarrow> bool) \<Rightarrow> node \<Rightarrow> node list" where
  \<comment> \<open>\<open>tag.find_all(...)\<close>, the criteria given as a predicate on tags\<close>
  "find_all p x = filter p (descendants x)"

definition find_first :: "(node \<Rightarrow> bool) \<Rightarrow> node \<Rightarrow> node option" where
  \<comment> \<open>\<open>tag.find(...)\<close>: the first match in document order, or None\<close>
  "find_first p x = (case find_all p x of [] \<Rightarrow> None | e # _ \<Rightarrow> Some e)"

fun all_strings :: "bool \<Rightarrow> node list \<Rightarrow> string list" where
  \<comment> \<open>\<open>_all_strings(strip)\<close> over a list of descendants\<close>
  "all_strings strp [] = []"
| "all_strings strp (NavigableString s # r) =
     (if strp then (if py_strip s = [] then all_strings strp r
                    else py_strip s # all_strings strp r)
      else s # all_strings strp r)"
| "all_strings strp (_ # r) = all_strings strp r"

definition get_text :: "string \<Rightarrow> bool \<Rightarrow> node \<Rightarrow> string" where
  \<comment> \<open>\<open>tag.get_text(separator=sep, strip=strp)\<close>\<close>
  "get_text sep strp x = py_join sep (all_strings strp (descendants x))"

fun decompose_all :: "string list \<Rightarrow> node \<Rightarrow> node" where
  \<comment> \<open>\<open>for t in soup(names): t.decompose()\<close>: every tag with one of the names leaves
      the tree together with everything below it\<close>
  "decompose_all ns (Tag n a cs) =
     Tag n a (map (decompose_all ns) (filter (\<lambda>c. \<not> name_in ns c) cs))"
| "decompose_all ns (NavigableString s) = NavigableString s"
| "decompose_all ns (OtherString s) = OtherString s"

section \<open>WebsiteScraper\<close>

definition no_title :: string where "no_title = ''No title found''"
definition no_description :: string where "no_description = ''No description found''"
definition no_main_content :: string where "no_main_content = ''No main content found''"
definition no_headings :: string where "no_headings = ''No headings found''"
definition no_links :: string where "no_links = ''No links found''"
definition no_text :: string where "no_text = ''No text found''"

definition extract_title :: "soup \<Rightarrow> string" where
  "extract_title soup =
     (case find_first (tag_named ''title'') soup of
        Some title_tag \<Rightarrow> get_text [] True title_tag
      | None \<Rightarrow> no_title)"

definition is_meta_description :: "node \<Rightarrow> bool" where
  "is_meta_description x = (tag_named ''meta'' x \<and> get_attr x ''name'' = Some ''description'')"

definition extract_description :: "soup \<Rightarrow> string" where
  "extract_description soup =
     (case find_first is_meta_description soup of
        Some meta_desc \<Rightarrow>
          (case get_attr meta_desc ''content'' of
             Some c \<Rightarrow> if c \<noteq> [] then c else no_description
           | None \<Rightarrow> no_description)
      | None \<Rightarrow> no_description)"

definition class_has_content :: "string \<Rightarrow> bool" where
  \<comment> \<open>\<open>lambda x: x and 'content' in x.lower()\<close>\<close>
  "class_has_content x = (x \<noteq> [] \<and> py_in ''content'' (py_lower x))"

definition class_matches :: "node \<Rightarrow> bool" where
  \<comment> \<open>\<open>class_=f\<close>: \<open>f\<close> is tried on each class of the tag, then on the classes joined by
      one space; a tag without the attribute does not match\<close>
  "class_matches x =
     (case get_attr x ''class'' of
        None \<Rightarrow> False
      | Some v \<Rightarrow> list_ex class_has_content (ws_words v)
                    \<or> class_has_content (py_join '' '' (ws_words v)))"

definition is_content_div :: "node \<Rightarrow> bool" where
  "is_content_div x = (tag_named ''div'' x \<and> class_matches x)"

definition or_else :: "'a option \<Rightarrow> 'a option \<Rightarrow> 'a option" where
  \<comment> \<open>Python's \<open>a or b\<close> on results of \<open>find\<close>: a tag is always truthy\<close>
  "or_else a b = (case a of Some x \<Rightarrow> Some x | None \<Rightarrow> b)"

definition main_content_source :: "soup \<Rightarrow> node option" where
  "main_content_source soup =
     or_else (find_first (tag_named ''main'') soup)
       (or_else (find_first (tag_named ''article'') soup)
          (or_else (find_first is_content_div soup)
             (find_first (tag_named ''body'') soup)))"

definition main_content_removed :: "string list" where
  "main_content_removed = [''script'', ''style'', ''nav'', ''footer'', ''header'']"

definition extract_main_content :: "soup \<Rightarrow> string \<times> soup" where
  \<comment> \<open>returns the field and the soup as the in-place removal leaves it\<close>
  "extract_main_content soup =
     (let soup' = decompose_all main_content_removed soup
      in (case main_content_source soup' of
            Some main_content \<Rightarrow>
              (let text = get_text nl True main_content
               in if text \<noteq> [] then take 3000 text else no_main_content)
          | None \<Rightarrow> no_main_content,
          soup'))"

definition heading_line :: "nat \<Rightarrow> node \<Rightarrow> string" where
  "heading_line level heading = ''H'' @ py_str level @ '': '' @ get_text [] True heading"

definition collect_headings :: "soup \<Rightarrow> string list" where
  \<comment> \<open>the list \<open>headings\<close> after the two nested loops\<close>
  "collect_headings soup =
     fold (\<lambda>level acc.
             fold (\<lambda>heading acc'. acc' @ [heading_line level heading])
                  (find_all (tag_named (''h'' @ py_str level)) soup) acc)
          [1..<7] []"

definition extract_headings :: "soup \<Rightarrow> string" where
  "extract_headings soup =
     (let headings = collect_headings soup
      in if headings \<noteq> [] then py_join nl (take 20 headings) else no_headings)"

definition is_anchor_with_href :: "node \<Rightarrow> bool" where
  \<comment> \<open>\<open>find_all('a', href=True)\<close>: the attribute is present, whatever its value\<close>
  "is_anchor_with_href x = (tag_named ''a'' x \<and> get_attr x ''href'' \<noteq> None)"

definition link_step :: "node \<Rightarrow> string list \<Rightarrow> string list" where
  \<comment> \<open>one round of the loop body of \<open>_extract_links\<close>\<close>
  "link_step link links =
     (let text = get_text [] True link
      in (case get_attr link ''href'' of
            Some href \<Rightarrow>
              if text \<noteq> [] \<and> \<not> startswith href ''#''
              then links @ [text @ '': '' @ href] else links
          | None \<Rightarrow> links))"

definition collect_links :: "soup \<Rightarrow> string list" where
  \<comment> \<open>the list \<open>links\<close> after the loop\<close>
  "collect_links soup = fold link_step (take 15 (find_all is_anchor_with_href soup)) []"

definition extract_links :: "soup \<Rightarrow> string" where
  "extract_links soup =
     (let links = collect_links soup
      in if links \<noteq> [] then py_join nl links else no_links)"

definition full_text_removed :: "string list" where
  "full_text_removed = [''script'', ''style'', ''nav'', ''footer'']"

definition clean_lines :: "string \<Rightarrow> string" where
  \<comment> \<open>\<open>'\n'.join(line.strip() for line in text.split('\n') if line.strip())\<close>\<close>
  "clean_lines text =
     py_join nl (map py_strip (filter (\<lambda>line. py_strip line \<noteq> []) (py_split (CHR 0x0A) text)))"

definition extract_full_text :: "soup \<Rightarrow> string \<times> soup" where
  "extract_full_text soup =
     (let soup' = decompose_all full_text_removed soup;
          text = clean_lines (get_text nl True soup')
      in (if text \<noteq> [] then take 5000 text else no_text, soup'))"

type_synonym content_dict = "string \<rightharpoonup> string"

definition extract_all :: "soup \<Rightarrow> content_dict \<times> soup" where
  \<comment> \<open>the dictionary literal of \<open>scrape_website\<close>, its six values computed in the order
      written, on one shared soup; the second component is that soup afterwards\<close>
  "extract_all soup =
     (let title = extract_title soup;
          description = extract_description soup;
          (main_content, soup1) = extract_main_content soup;
          headings = extract_headings soup1;
          links = extract_links soup1;
          (full_text, soup2) = extract_full_text soup1
      in ([''title'' \<mapsto> title, ''description'' \<mapsto> description,
           ''main_content'' \<mapsto> main_content, ''headings'' \<mapsto> headings,
           ''links'' \<mapsto> links, ''full_text'' \<mapsto> full_text], soup2))"

definition scrape_website :: "string + soup \<Rightarrow> content_dict" where
  \<comment> \<open>the argument is what fetching and parsing gave: \<open>Inl\<close> an exception's message,
      \<open>Inr\<close> the parsed soup; both \<open>except\<close> branches return the empty dictionary\<close>
  "scrape_website fetched =
     (case fetched of
        Inl e \<Rightarrow> Map.empty
      | Inr soup \<Rightarrow> fst (extract_all soup))"

section \<open>Chatbot\<close>

definition add_part :: "string \<Rightarrow> string \<Rightarrow> content_dict \<Rightarrow> string list \<Rightarrow> string list" where
  \<comment> \<open>\<open>if content.get(key): context_parts.append(f"{label}{content[key]}")\<close>\<close>
  "add_part label key dict context_parts =
     (case dict key of
        Some v \<Rightarrow> if v \<noteq> [] then context_parts @ [label @ v] else context_parts
      | None \<Rightarrow> context_parts)"

definition format_content_for_context :: "content_dict \<Rightarrow> string" where
  "format_content_for_context dict =
     (let context_parts = [];
          context_parts = add_part ''Title: '' ''title'' dict context_parts;
          context_parts = add_part ''Description: '' ''description'' dict context_parts;
          context_parts = add_part (nl @ ''Headings:'' @ nl) ''headings'' dict context_parts;
          context_parts = add_part (nl @ ''Main Content:'' @ nl) ''main_content'' dict context_parts;
          context_parts = add_part (nl @ ''Important Links:'' @ nl) ''links'' dict context_parts
      in py_join nl context_parts)"

record message =
  role :: string
  content :: string

record chatbot =
  conversation_history :: "message list"
  website_content :: string

definition new_chatbot :: chatbot where
  \<comment> \<open>\<open>Chatbot.__init__\<close>; the client is passed to \<open>get_response\<close> instead\<close>
  "new_chatbot = \<lparr>conversation_history = [], website_content = []\<rparr>"

definition set_website_context :: "chatbot \<Rightarrow> content_dict \<Rightarrow> chatbot" where
  "set_website_context self dict = self\<lparr>website_content := format_content_for_context dict\<rparr>"

definition system_message :: "string \<Rightarrow> string" where
  "system_message ctx =
     ''You are a helpful chatbot assistant that answers questions based on the content of a specific website.''
     @ nl @ nl @ ''WEBSITE CONTENT:'' @ nl @ ctx @ nl @ nl @ ''INSTRUCTIONS:'' @ nl
     @ ''- Answer questions using ONLY the information provided in the website content above'' @ nl
     @ ''- If the answer is not found in the website content, respond with: '' @ [CHR 0x22]
     @ ''The requested information is not available on the provided website.'' @ [CHR 0x22] @ nl
     @ ''- Be helpful, clear, and concise in your responses'' @ nl
     @ ''- Do not use external knowledge or information not present in the website content'' @ nl
     @ ''- If relevant, reference specific sections or headings from the website'' @ nl
     @ ''- Maintain a friendly and professional tone''"

definition last_entries :: "nat \<Rightarrow> 'a list \<Rightarrow> 'a list" where
  \<comment> \<open>the slice \<open>xs[-n:]\<close> for positive \<open>n\<close>: the whole list when it is shorter\<close>
  "last_entries n xs = drop (length xs - n) xs"

definition build_messages :: "chatbot \<Rightarrow> string \<Rightarrow> message list" where
  "build_messages self user_input =
     [\<lparr>role = ''system'', content = system_message (website_content self)\<rparr>]
     @ last_entries 10 (conversation_history self)
     @ [\<lparr>role = ''user'', content = user_input\<rparr>]"

text \<open>
  The completion client is outside the repository. A call to it either raises, with the
  text of the exception, or returns a response, of which the code reads
  \<open>choices[0].message.content\<close>: the list holds the content of each choice, \<open>None\<close>
  when the message has none.
\<close>

datatype api_result = Raises string | Completion "string option list"

definition index_error :: string where
  "index_error = ''list index out of range''"

definition none_strip_error :: string where
  "none_strip_error =
     [CHR 0x27] @ ''NoneType'' @ [CHR 0x27] @ '' object has no attribute '' @ [CHR 0x27] @ ''strip'' @ [CHR 0x27]"

definition cross_mark :: string where
  \<comment> \<open>the emoji U+274C that opens the error reply, here as its three UTF-8 bytes\<close>
  "cross_mark = [CHR 0xE2, CHR 0x9D, CHR 0x8C]"

definition error_prefix :: string where
  "error_prefix = cross_mark @ '' Error generating response: ''"

definition try_body :: "(message list \<Rightarrow> api_result) \<Rightarrow> chatbot \<Rightarrow> string \<Rightarrow> (string + string) \<times> chatbot" where
  \<comment> \<open>the \<open>try\<close> block of \<open>get_response\<close>: \<open>Inl\<close> the text of the exception raised,
      \<open>Inr\<close> the value returned, each with the chatbot as it is at that point\<close>
  "try_body client self user_input =
     (case client (build_messages self user_input) of
        Raises e \<Rightarrow> (Inl e, self)
      | Completion [] \<Rightarrow> (Inl index_error, self)
      | Completion (None # _) \<Rightarrow> (Inl none_strip_error, self)
      | Completion (Some c # _) \<Rightarrow>
          (let assistant_response = py_strip c;
               h1 = conversation_history self @ [\<lparr>role = ''user'', content = user_input\<rparr>];
               h2 = h1 @ [\<lparr>role = ''assistant'', content = assistant_response\<rparr>]
           in (Inr assistant_response, self\<lparr>conversation_history := h2\<rparr>)))"

definition get_response :: "(message list \<Rightarrow> api_result) \<Rightarrow> chatbot \<Rightarrow> string \<Rightarrow> string \<times> chatbot" where
  \<comment> \<open>\<open>except Exception as e\<close> turns every exception of the block into the reply\<close>
  "get_response client self user_input =
     (case try_body client self user_input of
        (Inl e, self') \<Rightarrow> (error_prefix @ e, self')
      | (Inr reply, self') \<Rightarrow> (reply, self'))"

definition clear_history :: "chatbot \<Rightarrow> chatbot" where
  "clear_history self = self\<lparr>conversation_history := []\<rparr>"

definition succeeds :: "api_result \<Rightarrow> bool" where
  \<comment> \<open>the call returned and its first choice has a content\<close>
  "succeeds r = (case r of Completion (Some c # _) \<Rightarrow> True | _ \<Rightarrow> False)"

datatype call = Answer string "message list \<Rightarrow> api_result" | Clear

fun run_calls :: "chatbot \<Rightarrow> call list \<Rightarrow> chatbot" where
  \<comment> \<open>a sequence of calls on one chatbot; each answer call comes with the behaviour of
      the completion client at that call\<close>
  "run_calls self [] = self"
| "run_calls self (Answer q client # cs) = run_calls (snd (get_response client self q)) cs"
| "run_calls self (Clear # cs) = run_calls (clear_history self) cs"

section \<open>Vocabulary of the properties\<close>

definition field_ok :: "string \<Rightarrow> string \<Rightarrow> bool" where
  \<comment> \<open>a field is its sentinel, or non-empty text that \<open>strip\<close> leaves as it is\<close>
  "field_ok sentinel v = (v = sentinel \<or> (v \<noteq> [] \<and> py_strip v = v))"

definition edges_ok :: "string \<Rightarrow> bool" where
  \<comment> \<open>non-empty text that neither starts nor ends with whitespace\<close>
  "edges_ok s = (s \<noteq> [] \<and> \<not> py_isspace (hd s) \<and> \<not> py_isspace (last s))"

fun first_available :: "(node \<Rightarrow> bool) list \<Rightarrow> soup \<Rightarrow> node option" where
  \<comment> \<open>the first match of the first criterion, in priority order, that matches at all\<close>
  "first_available [] soup = None"
| "first_available (p # ps) soup =
     (case find_first p soup of Some e \<Rightarrow> Some e | None \<Rightarrow> first_available ps soup)"

definition source_priorities :: "(node \<Rightarrow> bool) list" where
  "source_priorities =
     [tag_named ''main'', tag_named ''article'', is_content_div, tag_named ''body'']"

definition any_tag_priorities :: "(node \<Rightarrow> bool) list" where
  \<comment> \<open>the third criterion read as a tag of any name with a matching class\<close>
  "any_tag_priorities =
     [tag_named ''main'', tag_named ''article'', class_matches, tag_named ''body'']"

definition link_kept :: "node \<Rightarrow> bool" where
  \<comment> \<open>a candidate anchor with visible text and an href that is no fragment\<close>
  "link_kept a =
     (case get_attr a ''href'' of
        Some href \<Rightarrow> get_text [] True a \<noteq> [] \<and> \<not> startswith href ''#''
      | None \<Rightarrow> False)"

definition link_line :: "node \<Rightarrow> string" where
  "link_line a =
     get_text [] True a @ '': '' @ (case get_attr a ''href'' of Some href \<Rightarrow> href | None \<Rightarrow> [])"

definition heading_levels :: "(string \<times> string) list" where
  \<comment> \<open>tag name and label of the six levels, lowest level first\<close>
  "heading_levels =
     [(''h1'', ''H1: ''), (''h2'', ''H2: ''), (''h3'', ''H3: ''),
      (''h4'', ''H4: ''), (''h5'', ''H5: ''), (''h6'', ''H6: '')]"

definition level_entries :: "soup \<Rightarrow> string \<times> string \<Rightarrow> string list" where
  \<comment> \<open>the entries of one level, in document order\<close>
  "level_entries soup lv =
     map (\<lambda>h. snd lv @ get_text [] True h) (find_all (tag_named (fst lv)) soup)"

definition labelled :: "string \<Rightarrow> string \<Rightarrow> content_dict \<Rightarrow> string list" where
  \<comment> \<open>the labelled field when the key is present with a non-empty value, else nothing\<close>
  "labelled label key dict =
     (case dict key of
        Some v \<Rightarrow> if v = [] then [] else [label @ v]
      | None \<Rightarrow> [])"

fun kept_subtree :: "string list \<Rightarrow> node \<Rightarrow> node list" where
  \<comment> \<open>the nodes of a subtree, in document order, that are neither a tag with one of
      the names nor anywhere below such a tag\<close>
  "kept_subtree ns (Tag n a cs) =
     (if n \<in> set ns then [] else Tag n a cs # concat (map (kept_subtree ns) cs))"
| "kept_subtree ns (NavigableString s) = [NavigableString s]"
| "kept_subtree ns (OtherString s) = [OtherString s]"

definition kept_descendants :: "string list \<Rightarrow> node \<Rightarrow> node list" where
  \<comment> \<open>the descendants of a node of the document that lie outside every tag with one of
      the names\<close>
  "kept_descendants ns x = concat (map (kept_subtree ns) (contents x))"

definition visible_text :: "string \<Rightarrow> node \<Rightarrow> string" where
  \<comment> \<open>the stripped strings below a node of the document that lie outside script, style,
      nav, footer and header elements, joined by the separator\<close>
  "visible_text sep x = py_join sep (all_strings True (kept_descendants main_content_removed x))"

definition visible_anchors :: "soup \<Rightarrow> node list" where
  \<comment> \<open>the anchors with an href outside script, style, nav, footer and header elements\<close>
  "visible_anchors soup = filter is_anchor_with_href (kept_descendants main_content_removed soup)"

definition visible_link_kept :: "node \<Rightarrow> bool" where
  "visible_link_kept a =
     (case get_attr a ''href'' of
        Some href \<Rightarrow> visible_text [] a \<noteq> [] \<and> \<not> startswith href ''#''
      | None \<Rightarrow> False)"

definition visible_link_line :: "node \<Rightarrow> string" where
  "visible_link_line a =
     visible_text [] a @ '': '' @ (case get_attr a ''href'' of Some href \<Rightarrow> href | None \<Rightarrow> [])"

definition visible_links :: "soup \<Rightarrow> string list" where
  \<comment> \<open>the kept candidates among the first 15 visible anchors, as lines\<close>
  "visible_links soup = map visible_link_line (filter visible_link_kept (take 15 (visible_anchors soup)))"

definition visible_level_entries :: "soup \<Rightarrow> string \<times> string \<Rightarrow> string list" where
  \<comment> \<open>the entries of one level from the heading elements outside script, style, nav,
      footer and header elements, in document order\<close>
  "visible_level_entries soup lv =
     map (\<lambda>h. snd lv @ visible_text [] h)
         (filter (tag_named (fst lv)) (kept_descendants main_content_removed soup))"

definition visible_headings :: "soup \<Rightarrow> string list" where
  "visible_headings soup = concat (map (visible_level_entries soup) heading_levels)"

fun emptied :: "node \<Rightarrow> node" where
  "emptied (Tag n a cs) = Tag n a []"
| "emptied x = x"

fun blank_removed :: "string list \<Rightarrow> node \<Rightarrow> node" where
  \<comment> \<open>the document with every tag of one of the names emptied: what is outside such
      tags stays as it is, what is inside them is gone\<close>
  "blank_removed ns (Tag n a cs) =
     Tag n a (map (\<lambda>c. if name_in ns c then emptied c else blank_removed ns c) cs)"
| "blank_removed ns (NavigableString s) = NavigableString s"
| "blank_removed ns (OtherString s) = OtherString s"

section \<open>Example documents\<close>

definition acme_page :: soup where
  "acme_page =
     Tag ''[document]'' []
       [Tag ''html'' []
          [Tag ''head'' []
             [Tag ''title'' [] [NavigableString ''Acme''],
              Tag ''meta'' [(''name'', ''description''), (''content'', ''Acme Corp home'')] []],
           Tag ''body'' []
             [Tag ''nav'' [] [Tag ''a'' [(''href'', ''/home'')] [NavigableString ''Home'']],
              Tag ''h1'' [] [NavigableString ''Welcome''],
              Tag ''a'' [(''href'', ''#top'')] [NavigableString ''Top''],
              Tag ''a'' [(''href'', ''/about'')] [NavigableString ''About'']]]]"

definition logo_page :: soup where
  \<comment> \<open>no title in the head; the only title element labels a logo inside the header\<close>
  "logo_page =
     Tag ''[document]'' []
       [Tag ''html'' []
          [Tag ''body'' []
             [Tag ''header'' [] [Tag ''svg'' [] [Tag ''title'' [] [NavigableString ''Logo'']]],
              Tag ''p'' [] [NavigableString ''Hello'']]]]"

definition plain_page :: soup where
  "plain_page =
     Tag ''[document]'' []
       [Tag ''html'' []
          [Tag ''body'' []
             [Tag ''h2'' [] [NavigableString ''News''],
              Tag ''a'' [(''href'', ''/more'')] [NavigableString ''More'']]]]"

definition empty_page :: soup where
  "empty_page = Tag ''[document]'' [] []"

definition padded_page :: soup where
  \<comment> \<open>a description written with spaces around it\<close>
  "padded_page =
     Tag ''[document]'' []
       [Tag ''html'' []
          [Tag ''head'' []
             [Tag ''title'' [] [NavigableString ''Acme''],
              Tag ''meta'' [(''name'', ''description''), (''content'', '' Acme Corp '')] []],
           Tag ''body'' [] [Tag ''p'' [] [NavigableString ''Hello'']]]]"

definition section_page :: soup where
  \<comment> \<open>the content class sits on a section, not on a div\<close>
  "section_page =
     Tag ''[document]'' []
       [Tag ''html'' []
          [Tag ''body'' []
             [Tag ''p'' [] [NavigableString ''Intro''],
              Tag ''section'' [(''class'', ''page-Content wide'')] [NavigableString ''Main'']]]]"

definition div_page :: soup where
  "div_page =
     Tag ''[document]'' []
       [Tag ''html'' []
          [Tag ''body'' []
             [Tag ''p'' [] [NavigableString ''Intro''],
              Tag ''div'' [(''class'', ''page-Content wide'')] [NavigableString ''Main'']]]]"

definition fragment_anchor :: node where
  "fragment_anchor = Tag ''a'' [(''href'', ''#top'')] [NavigableString ''Top'']"

definition sixteen_anchors_page :: soup where
  \<comment> \<open>fifteen fragment anchors, then one ordinary link\<close>
  "sixteen_anchors_page =
     Tag ''[document]'' []
       [Tag ''body'' []
          (replicate 15 fragment_anchor
           @ [Tag ''a'' [(''href'', ''/about'')] [NavigableString ''About'']])]"

definition many_headings_page :: soup where
  \<comment> \<open>twenty level-2 headings, then one of level 1 and one of level 3\<close>
  "many_headings_page =
     Tag ''[document]'' []
       [Tag ''body'' []
          (replicate 20 (Tag ''h2'' [] [NavigableString ''b''])
           @ [Tag ''h1'' [] [NavigableString ''a''], Tag ''h3'' [] [NavigableString ''c'']])]"

definition nav_fragments_page :: soup where
  \<comment> \<open>fifteen fragment anchors in the navigation bar, then one ordinary link in the body\<close>
  "nav_fragments_page =
     Tag ''[document]'' []
       [Tag ''body'' []
          [Tag ''nav'' [] (replicate 15 fragment_anchor),
           Tag ''a'' [(''href'', ''/about'')] [NavigableString ''About'']]]"

definition header_headings_page :: soup where
  \<comment> \<open>twenty-one level-1 headings in the page header, then one level-2 heading\<close>
  "header_headings_page =
     Tag ''[document]'' []
       [Tag ''body'' []
          [Tag ''header'' [] (replicate 21 (Tag ''h1'' [] [NavigableString ''a''])),
           Tag ''h2'' [] [NavigableString ''b'']]]"

definition nav_text_page :: soup where
  \<comment> \<open>a navigation bar with text of its own, a heading and a link, in front of the body text\<close>
  "nav_text_page =
     Tag ''[document]'' []
       [Tag ''body'' []
          [Tag ''nav'' []
             [NavigableString ''Site menu'',
              Tag ''h2'' [] [NavigableString ''Sections''],
              Tag ''a'' [(''href'', ''/home'')] [NavigableString ''Home'']],
           Tag ''h1'' [] [NavigableString ''Welcome''],
           Tag ''p'' [] [NavigableString ''Hello''],
           Tag ''a'' [(''href'', ''/about'')]
             [NavigableString ''About'', Tag ''script'' [] [NavigableString ''track()'']]]]"

definition sentinel_record :: content_dict where
  "sentinel_record =
     [''title'' \<mapsto> no_title, ''description'' \<mapsto> no_description,
      ''main_content'' \<mapsto> no_main_content, ''headings'' \<mapsto> no_headings,
      ''links'' \<mapsto> no_links, ''full_text'' \<mapsto> no_text]"

definition blank_record :: content_dict where
  \<comment> \<open>a record whose only field is an empty title\<close>
  "blank_record = [''title'' \<mapsto> []]"

definition timeout_client :: "message list \<Rightarrow> api_result" where
  "timeout_client msgs = Raises ''Request timed out.''"

definition echo_client :: "message list \<Rightarrow> api_result" where
  \<comment> \<open>answers with the number of messages it was sent, padded with spaces\<close>
  "echo_client msgs = Completion [Some ('' '' @ py_str (length msgs) @ '' '')]"


section \<open>Removing tags from the tree\<close>

lemma name_in_decompose_all [simp]: "name_in ns (decompose_all ms x) = name_in ns x"
  by (cases x) simp_all

lemma decompose_all_absorb:
  "set ns \<subseteq> set ms \<Longrightarrow> decompose_all ns (decompose_all ms x) = decompose_all ms x"
proof (induction x)
  case (Tag n a cs)
  have keep: "filter (\<lambda>c. \<not> name_in ns c) (filter (\<lambda>c. \<not> name_in ms c) cs)
              = filter (\<lambda>c. \<not> name_in ms c) cs"
  proof (rule filter_True, rule ballI)
    fix c assume "c \<in> set (filter (\<lambda>c. \<not> name_in ms c) cs)"
    then have "\<not> name_in ms c" by simp
    with Tag.prems show "\<not> name_in ns c" by (cases c) auto
  qed
  have "map (decompose_all ns) (filter (\<lambda>c. \<not> name_in ns c) (map (decompose_all ms) (filter (\<lambda>c. \<not> name_in ms c) cs)))
        = map (decompose_all ns \<circ> decompose_all ms) (filter (\<lambda>c. \<not> name_in ns c) (filter (\<lambda>c. \<not> name_in ms c) cs))"
    by (simp add: filter_map comp_def)
  also have "\<dots> = map (decompose_all ns \<circ> decompose_all ms) (filter (\<lambda>c. \<not> name_in ms c) cs)"
    by (simp only: keep)
  also have "\<dots> = map (decompose_all ms) (filter (\<lambda>c. \<not> name_in ms c) cs)"
    using Tag.IH Tag.prems by (intro map_cong) auto
  finally show ?case by simp
qed simp_all

lemma subtree_decompose_clean:
  "\<not> name_in ns x \<Longrightarrow> y \<in> set (subtree (decompose_all ns x)) \<Longrightarrow> \<not> name_in ns y"
proof (induction x arbitrary: y)
  case (Tag n a cs)
  then show ?case by auto
qed auto

lemma descendants_decompose_clean:
  "y \<in> set (descendants (decompose_all ns x)) \<Longrightarrow> \<not> name_in ns y"
  by (cases x) (auto simp: descendants_def dest: subtree_decompose_clean)

lemma find_all_decompose_none: "find_all (name_in ns) (decompose_all ns x) = []"
  by (auto simp: find_all_def filter_empty_conv dest: descendants_decompose_clean)

lemma subtree_clean_decompose_id:
  "\<forall>y\<in>set (subtree x). \<not> name_in ns y \<Longrightarrow> decompose_all ns x = x"
proof (induction x)
  case (Tag n a cs)
  have all: "\<And>c. c \<in> set cs \<Longrightarrow> \<forall>y\<in>set (subtree c). \<not> name_in ns y"
    using Tag.prems by auto
  have self: "\<And>c. c \<in> set cs \<Longrightarrow> \<not> name_in ns c"
  proof -
    fix c assume c: "c \<in> set cs"
    have "c \<in> set (subtree c)" by (cases c) auto
    with all[OF c] show "\<not> name_in ns c" by blast
  qed
  have "filter (\<lambda>c. \<not> name_in ns c) cs = cs"
    using self by (intro filter_True) auto
  moreover have "map (decompose_all ns) cs = cs"
    using Tag.IH all by (intro map_idI) auto
  ultimately show ?case by simp
qed simp_all

lemma decompose_all_id:
  "find_all (name_in ns) x = [] \<Longrightarrow> decompose_all ns x = x"
proof (cases x)
  case (Tag n a cs)
  assume "find_all (name_in ns) x = []"
  then have clean: "\<forall>y\<in>set (descendants x). \<not> name_in ns y"
    by (auto simp: find_all_def filter_empty_conv)
  have sub: "\<And>c. c \<in> set cs \<Longrightarrow> \<forall>y\<in>set (subtree c). \<not> name_in ns y"
    using clean Tag by (auto simp: descendants_def)
  have self: "\<And>c. c \<in> set cs \<Longrightarrow> \<not> name_in ns c"
  proof -
    fix c assume c: "c \<in> set cs"
    have "c \<in> set (subtree c)" by (cases c) auto
    with sub[OF c] show "\<not> name_in ns c" by blast
  qed
  have "filter (\<lambda>c. \<not> name_in ns c) cs = cs"
    using self by (intro filter_True) auto
  moreover have "map (decompose_all ns) cs = cs"
    using sub by (intro map_idI) (auto intro: subtree_clean_decompose_id)
  ultimately show ?thesis using Tag by simp
qed simp_all

lemma extract_all_fst:
  "fst (extract_all soup) =
     [''title'' \<mapsto> extract_title soup, ''description'' \<mapsto> extract_description soup,
      ''main_content'' \<mapsto> fst (extract_main_content soup),
      ''headings'' \<mapsto> extract_headings (decompose_all main_content_removed soup),
      ''links'' \<mapsto> extract_links (decompose_all main_content_removed soup),
      ''full_text'' \<mapsto> fst (extract_full_text (decompose_all main_content_removed soup))]"
  by (simp add: extract_all_def extract_main_content_def Let_def split: prod.splits)

lemma extract_all_snd:
  "snd (extract_all soup) = decompose_all main_content_removed soup"
proof -
  have "set full_text_removed \<subseteq> set main_content_removed"
    by (simp add: full_text_removed_def main_content_removed_def)
  then show ?thesis
    by (simp add: extract_all_def extract_main_content_def extract_full_text_def Let_def
        decompose_all_absorb split: prod.splits)
qed

section \<open>Truncation of main content and full text\<close>

text \<open>
  Claim C9. For every document, the \<open>main_content\<close> field of the extraction record has
  at most 3000 characters and the \<open>full_text\<close> field at most 5000.
\<close>

theorem main_content_and_full_text_bounded:
  "\<exists>m f. fst (extract_all soup) ''main_content'' = Some m \<and> length m \<le> 3000
       \<and> fst (extract_all soup) ''full_text'' = Some f \<and> length f \<le> 5000"
proof -
  have m: "length (fst (extract_main_content soup)) \<le> 3000"
    by (simp add: extract_main_content_def Let_def no_main_content_def split: option.splits)
  have f: "length (fst (extract_full_text (decompose_all main_content_removed soup))) \<le> 5000"
    by (simp add: extract_full_text_def Let_def no_text_def)
  show ?thesis using m f by (simp add: extract_all_fst)
qed

theorem main_content_and_full_text_bounded_witness:
  "fst (extract_all acme_page) ''main_content'' = Some (''Welcome'' @ nl @ ''Top'' @ nl @ ''About'')
   \<and> fst (extract_all acme_page) ''full_text''
       = Some (''Acme'' @ nl @ ''Welcome'' @ nl @ ''Top'' @ nl @ ''About'')
   \<and> (\<exists>m f. fst (extract_all acme_page) ''main_content'' = Some m \<and> length m \<le> 3000
       \<and> fst (extract_all acme_page) ''full_text'' = Some f \<and> length f \<le> 5000)"
proof -
  have a: "fst (extract_all acme_page) ''main_content''
           = Some (''Welcome'' @ nl @ ''Top'' @ nl @ ''About'')"
    by code_simp
  have b: "fst (extract_all acme_page) ''full_text''
           = Some (''Acme'' @ nl @ ''Welcome'' @ nl @ ''Top'' @ nl @ ''About'')"
    by code_simp
  show ?thesis using a b main_content_and_full_text_bounded [of acme_page] by blast
qed

section \<open>Extraction and the shared tree\<close>

text \<open>
  Claim C2 says that the removal of script, style, nav, footer and header elements works
  on a copy, so that the tree the caller holds is unchanged and a second extraction
  from it gives the same record. The code removes them from the one tree it has: on
  \<open>logo_page\<close> the tree after extraction differs from the tree before, and the second
  extraction no longer finds the title that the first one found.
\<close>

theorem extraction_on_working_copy_counterexample:
  "snd (extract_all logo_page) \<noteq> logo_page
   \<and> fst (extract_all logo_page) ''title'' = Some ''Logo''
   \<and> fst (extract_all (snd (extract_all logo_page))) ''title'' = Some ''No title found''"
  by code_simp

text \<open>
  Claim C2, amended. Extraction removes every script, style, nav, footer and header
  element from the shared tree itself: the tree afterwards is the source tree without
  them, and it is the source tree when that had none. From then on extraction changes
  nothing: a further extraction leaves the tree as it is, gives the same
  \<open>main_content\<close>, \<open>headings\<close>, \<open>links\<close> and \<open>full_text\<close> as the first, and from the
  second extraction on the whole record repeats.
\<close>

theorem extraction_strips_shared_tree:
  "snd (extract_all soup) = decompose_all main_content_removed soup
   \<and> find_all (name_in main_content_removed) (snd (extract_all soup)) = []
   \<and> (find_all (name_in main_content_removed) soup = [] \<longrightarrow> snd (extract_all soup) = soup)
   \<and> snd (extract_all (snd (extract_all soup))) = snd (extract_all soup)
   \<and> (\<forall>k \<in> {''main_content'', ''headings'', ''links'', ''full_text''}.
        fst (extract_all (snd (extract_all soup))) k = fst (extract_all soup) k)
   \<and> fst (extract_all (snd (extract_all (snd (extract_all soup)))))
       = fst (extract_all (snd (extract_all soup)))"
proof -
  let ?d = "decompose_all main_content_removed"
  have idem: "?d (?d soup) = ?d soup"
    by (simp add: decompose_all_absorb)
  have mc: "fst (extract_main_content (?d soup)) = fst (extract_main_content soup)"
    by (simp add: extract_main_content_def Let_def idem)
  show ?thesis
    by (simp add: extract_all_snd extract_all_fst idem mc find_all_decompose_none decompose_all_id)
qed

theorem extraction_strips_shared_tree_witness:
  "find_all (name_in main_content_removed) plain_page = []
   \<and> snd (extract_all plain_page) = plain_page
   \<and> fst (extract_all (snd (extract_all plain_page))) ''links''
       = fst (extract_all plain_page) ''links''
   \<and> fst (extract_all plain_page) ''links'' = Some ''More: /more''"
proof -
  have h: "find_all (name_in main_content_removed) plain_page = []"
    by code_simp
  have l: "fst (extract_all plain_page) ''links'' = Some ''More: /more''"
    by code_simp
  note t = extraction_strips_shared_tree [of plain_page]
  from t h have s: "snd (extract_all plain_page) = plain_page"
    by blast
  from t have k: "fst (extract_all (snd (extract_all plain_page))) ''links''
                  = fst (extract_all plain_page) ''links''"
    by blast
  from h s k l show ?thesis by blast
qed

section \<open>The grounding context\<close>

lemma add_part_labelled: "add_part label key dict parts = parts @ labelled label key dict"
  by (simp add: add_part_def labelled_def split: option.splits)

text \<open>
  Claim C1 says that the formatter joins exactly the fields whose value is not the
  sentinel, and returns the empty string when every field is the sentinel. The code
  tests \<open>content.get(key)\<close>, which is true of every non-empty string: the record of
  sentinels, which is what an empty page gives, is formatted with all five labelled
  sentinels.
\<close>

theorem sentinel_fields_left_out_counterexample:
  "map sentinel_record [''title'', ''description'', ''headings'', ''main_content'', ''links'']
     = [Some no_title, Some no_description, Some no_headings, Some no_main_content, Some no_links]
   \<and> map (fst (extract_all empty_page))
         [''title'', ''description'', ''headings'', ''main_content'', ''links'']
       = map sentinel_record [''title'', ''description'', ''headings'', ''main_content'', ''links'']
   \<and> format_content_for_context sentinel_record
       = ''Title: No title found'' @ nl @ ''Description: No description found'' @ nl
         @ nl @ ''Headings:'' @ nl @ ''No headings found'' @ nl
         @ nl @ ''Main Content:'' @ nl @ ''No main content found'' @ nl
         @ nl @ ''Important Links:'' @ nl @ ''No links found''
   \<and> format_content_for_context sentinel_record \<noteq> []"
  by code_simp

text \<open>
  Claim C1, amended. The grounding context is the concatenation, in the fixed order
  title, description, headings, main_content, links, of exactly those fields that are
  present with a non-empty value, each behind its label and joined by newlines; a
  sentinel is a value like any other. If every one of the five fields is missing or
  empty, the result is the empty string. The \<open>full_text\<close> field plays no part.
\<close>

theorem context_joins_present_fields:
  "format_content_for_context dict
     = py_join nl (labelled ''Title: '' ''title'' dict
                   @ labelled ''Description: '' ''description'' dict
                   @ labelled (nl @ ''Headings:'' @ nl) ''headings'' dict
                   @ labelled (nl @ ''Main Content:'' @ nl) ''main_content'' dict
                   @ labelled (nl @ ''Important Links:'' @ nl) ''links'' dict)
   \<and> ((\<forall>k \<in> {''title'', ''description'', ''headings'', ''main_content'', ''links''}.
          dict k = None \<or> dict k = Some [])
        \<longrightarrow> format_content_for_context dict = [])
   \<and> format_content_for_context (dict(''full_text'' := v)) = format_content_for_context dict"
proof -
  have eq: "\<And>d. format_content_for_context d
     = py_join nl (labelled ''Title: '' ''title'' d
                   @ labelled ''Description: '' ''description'' d
                   @ labelled (nl @ ''Headings:'' @ nl) ''headings'' d
                   @ labelled (nl @ ''Main Content:'' @ nl) ''main_content'' d
                   @ labelled (nl @ ''Important Links:'' @ nl) ''links'' d)"
    by (simp add: format_content_for_context_def add_part_labelled Let_def)
  have none: "\<And>l k. dict k = None \<or> dict k = Some [] \<Longrightarrow> labelled l k dict = []"
    by (auto simp: labelled_def)
  have upd: "\<And>l k. k \<noteq> ''full_text'' \<Longrightarrow> labelled l k (dict(''full_text'' := v)) = labelled l k dict"
    by (simp add: labelled_def)
  show ?thesis
    by (simp add: eq none upd)
qed

theorem context_joins_present_fields_witness:
  "blank_record ''title'' = Some []
   \<and> blank_record ''description'' = None
   \<and> blank_record ''headings'' = None
   \<and> blank_record ''main_content'' = None
   \<and> blank_record ''links'' = None
   \<and> format_content_for_context blank_record = []
   \<and> format_content_for_context (fst (extract_all acme_page))
       = ''Title: Acme'' @ nl @ ''Description: Acme Corp home'' @ nl
         @ nl @ ''Headings:'' @ nl @ ''H1: Welcome'' @ nl
         @ nl @ ''Main Content:'' @ nl @ ''Welcome'' @ nl @ ''Top'' @ nl @ ''About'' @ nl
         @ nl @ ''Important Links:'' @ nl @ ''About: /about''"
proof -
  have k: "blank_record ''title'' = Some []" "blank_record ''description'' = None"
      "blank_record ''headings'' = None" "blank_record ''main_content'' = None"
      "blank_record ''links'' = None"
    by (simp_all add: blank_record_def)
  then have h: "\<forall>k \<in> {''title'', ''description'', ''headings'', ''main_content'', ''links''}.
      blank_record k = None \<or> blank_record k = Some []"
    by simp
  have a: "format_content_for_context (fst (extract_all acme_page))
       = ''Title: Acme'' @ nl @ ''Description: Acme Corp home'' @ nl
         @ nl @ ''Headings:'' @ nl @ ''H1: Welcome'' @ nl
         @ nl @ ''Main Content:'' @ nl @ ''Welcome'' @ nl @ ''Top'' @ nl @ ''About'' @ nl
         @ nl @ ''Important Links:'' @ nl @ ''About: /about''"
    by code_simp
  note t = context_joins_present_fields [of blank_record]
  from t [THEN conjunct2, THEN conjunct1] h
  have e: "format_content_for_context blank_record = []"
    by (rule mp)
  show ?thesis
    by (intro conjI) (rule k e a)+
qed

section \<open>The source of the main content\<close>

lemma or_else_first_available:
  "main_content_source soup = first_available source_priorities soup"
  by (simp add: main_content_source_def source_priorities_def or_else_def split: option.splits)

lemma find_first_Some:
  "find_first p soup = Some e \<Longrightarrow>
     p e \<and> (\<exists>before after. descendants soup = before @ e # after \<and> (\<forall>x\<in>set before. \<not> p x))"
proof -
  assume a: "find_first p soup = Some e"
  obtain r where f: "filter p (descendants soup) = e # r"
  proof (cases "filter p (descendants soup)")
    case Nil
    with a show ?thesis by (simp add: find_first_def find_all_def)
  next
    case (Cons x r)
    with a have "x = e" by (simp add: find_first_def find_all_def)
    with Cons that show ?thesis by simp
  qed
  then show ?thesis
    by (metis filter_eq_Cons_iff)
qed

lemma find_first_None: "find_first p soup = None \<longleftrightarrow> (\<forall>x\<in>set (descendants soup). \<not> p x)"
proof (cases "filter p (descendants soup)")
  case Nil
  then show ?thesis by (simp add: find_first_def find_all_def filter_empty_conv)
next
  case (Cons x r)
  then have "x \<in> set (filter p (descendants soup))" by simp
  then have "x \<in> set (descendants soup) \<and> p x" by simp
  with Cons show ?thesis by (auto simp: find_first_def find_all_def)
qed

lemma first_available_Some:
  "first_available ps soup = Some e \<Longrightarrow>
     \<exists>i < length ps. find_first (ps ! i) soup = Some e
        \<and> (\<forall>j < i. \<forall>x\<in>set (descendants soup). \<not> (ps ! j) x)"
proof (induction ps)
  case Nil
  then show ?case by simp
next
  case (Cons p ps)
  show ?case
  proof (cases "find_first p soup")
    case (Some e')
    with Cons.prems have "e' = e" by simp
    with Some have "find_first ((p # ps) ! 0) soup = Some e" by simp
    then show ?thesis by (intro exI[of _ 0]) simp
  next
    case None
    with Cons.prems have "first_available ps soup = Some e" by simp
    from Cons.IH[OF this] obtain i where i: "i < length ps" "find_first (ps ! i) soup = Some e"
      "\<forall>j < i. \<forall>x\<in>set (descendants soup). \<not> (ps ! j) x" by blast
    have "\<forall>j < Suc i. \<forall>x\<in>set (descendants soup). \<not> ((p # ps) ! j) x"
    proof (intro allI impI)
      fix j assume "j < Suc i"
      then show "\<forall>x\<in>set (descendants soup). \<not> ((p # ps) ! j) x"
        using None i(3) by (cases j) (auto simp: find_first_None)
    qed
    with i(1,2) show ?thesis by (intro exI[of _ "Suc i"]) simp
  qed
qed

lemma first_available_None:
  "first_available ps soup = None \<longleftrightarrow> (\<forall>p\<in>set ps. \<forall>x\<in>set (descendants soup). \<not> p x)"
proof (induction ps)
  case Nil
  then show ?case by simp
next
  case (Cons p ps)
  show ?case
  proof (cases "find_first p soup")
    case None
    then have n: "\<forall>x\<in>set (descendants soup). \<not> p x"
      using find_first_None[of p soup] by simp
    show ?thesis using Cons.IH None n by simp
  next
    case (Some e)
    from find_first_Some[OF Some] have "e \<in> set (descendants soup)" "p e" by auto
    with Some show ?thesis by auto
  qed
qed

text \<open>
  Claim C4 says that the third choice for the main-content source is the first element
  of any tag whose class list contains \<open>content\<close>. The code asks \<open>find\<close> for a
  \<open>div\<close> only: on \<open>section_page\<close>, where the class sits on a \<open>section\<close>, the claimed
  rule picks the section and the code falls through to the body.
\<close>

theorem content_class_on_any_tag_counterexample:
  "main_content_source section_page \<noteq> first_available any_tag_priorities section_page
   \<and> first_available any_tag_priorities section_page
       = Some (Tag ''section'' [(''class'', ''page-Content wide'')] [NavigableString ''Main''])
   \<and> main_content_source section_page = find_first (tag_named ''body'') section_page
   \<and> fst (extract_main_content section_page) = ''Intro'' @ nl @ ''Main''"
  by code_simp

text \<open>
  Claim C4, amended. For every document, the main-content source is the first
  available of, in priority order: a \<open>main\<close> element, an \<open>article\<close> element, the
  first \<open>div\<close> element whose class list contains \<open>content\<close> case-insensitively, and
  finally the document body. The element chosen is the first match, in document order,
  of its criterion, no element matches a criterion of higher priority, and there is no
  source exactly when no element matches any of the four. Main-content extraction
  looks for it in the tree without script, style, nav, footer and header elements.
\<close>

theorem main_content_source_priority:
  "main_content_source soup = first_available source_priorities soup
   \<and> (\<forall>e. main_content_source soup = Some e \<longrightarrow>
        (\<exists>i < 4. find_first (source_priorities ! i) soup = Some e
           \<and> (\<forall>j < i. \<forall>x\<in>set (descendants soup). \<not> (source_priorities ! j) x)))
   \<and> (main_content_source soup = None
        \<longleftrightarrow> (\<forall>p\<in>set source_priorities. \<forall>x\<in>set (descendants soup). \<not> p x))
   \<and> fst (extract_main_content soup)
       = (case first_available source_priorities (decompose_all main_content_removed soup) of
            Some e \<Rightarrow> if get_text nl True e \<noteq> [] then take 3000 (get_text nl True e)
                      else no_main_content
          | None \<Rightarrow> no_main_content)"
proof -
  have len: "length source_priorities = 4" by (simp add: source_priorities_def)
  have a: "\<forall>e. main_content_source soup = Some e \<longrightarrow>
        (\<exists>i < 4. find_first (source_priorities ! i) soup = Some e
           \<and> (\<forall>j < i. \<forall>x\<in>set (descendants soup). \<not> (source_priorities ! j) x))"
    using first_available_Some[of source_priorities soup] len
    by (simp add: or_else_first_available)
  have b: "main_content_source soup = None
        \<longleftrightarrow> (\<forall>p\<in>set source_priorities. \<forall>x\<in>set (descendants soup). \<not> p x)"
    by (simp only: or_else_first_available first_available_None)
  have c: "fst (extract_main_content soup)
       = (case first_available source_priorities (decompose_all main_content_removed soup) of
            Some e \<Rightarrow> if get_text nl True e \<noteq> [] then take 3000 (get_text nl True e)
                      else no_main_content
          | None \<Rightarrow> no_main_content)"
    by (simp add: extract_main_content_def Let_def or_else_first_available split: option.splits)
  from or_else_first_available a b c show ?thesis by blast
qed

theorem main_content_source_priority_witness:
  "main_content_source div_page
     = Some (Tag ''div'' [(''class'', ''page-Content wide'')] [NavigableString ''Main''])
   \<and> find_first (source_priorities ! 2) div_page = main_content_source div_page
   \<and> list_all (\<lambda>x. \<not> (source_priorities ! 0) x \<and> \<not> (source_priorities ! 1) x)
         (descendants div_page)
   \<and> fst (extract_main_content div_page) = ''Main''
   \<and> main_content_source empty_page = None"
proof -
  let ?e = "Tag ''div'' [(''class'', ''page-Content wide'')] [NavigableString ''Main'']"
  have s: "main_content_source div_page = Some ?e"
    by code_simp
  have m: "fst (extract_main_content div_page) = ''Main''"
    by code_simp
  have f2: "find_first (source_priorities ! 2) div_page = Some ?e"
    by code_simp
  have no01: "find_first (source_priorities ! 0) div_page = None" "find_first (source_priorities ! 1) div_page = None"
    by code_simp+
  have n: "\<forall>p\<in>set source_priorities. \<forall>x\<in>set (descendants empty_page). \<not> p x"
    by (simp add: empty_page_def descendants_def)
  note t = main_content_source_priority [of div_page]
  from t s obtain i where i: "i < 4" "find_first (source_priorities ! i) div_page = Some ?e"
      "\<forall>j < i. \<forall>x\<in>set (descendants div_page). \<not> (source_priorities ! j) x"
    by blast
  have "i = 2"
  proof -
    have "i \<noteq> 0"
    proof
      assume "i = 0"
      with i(2) no01(1) show False by simp
    qed
    moreover have "i \<noteq> 1"
    proof
      assume "i = 1"
      with i(2) no01(2) show False by simp
    qed
    moreover have "i \<noteq> 3"
    proof
      assume "i = 3"
      with i(3) have "\<forall>x\<in>set (descendants div_page). \<not> (source_priorities ! 2) x" by simp
      then have "find_first (source_priorities ! 2) div_page = None" by (simp add: find_first_None)
      with f2 show False by simp
    qed
    ultimately show ?thesis using i(1) by arith
  qed
  with i(3) have "\<forall>j < 2. \<forall>x\<in>set (descendants div_page). \<not> (source_priorities ! j) x" by simp
  then have "\<forall>x\<in>set (descendants div_page). \<not> (source_priorities ! 0) x"
      "\<forall>x\<in>set (descendants div_page). \<not> (source_priorities ! 1) x"
    by simp_all
  then have w: "list_all (\<lambda>x. \<not> (source_priorities ! 0) x \<and> \<not> (source_priorities ! 1) x)
         (descendants div_page)"
    by (simp add: list_all_iff)
  from main_content_source_priority [of empty_page] n have e: "main_content_source empty_page = None"
    by blast
  from s f2 w m e show ?thesis by simp
qed

section \<open>Links\<close>

lemma link_step_eq:
  "link_step a links = links @ (if link_kept a then [link_line a] else [])"
  by (simp add: link_step_def link_kept_def link_line_def Let_def split: option.splits)

lemma fold_link_step:
  "fold link_step xs acc = acc @ map link_line (filter link_kept xs)"
  by (induction xs arbitrary: acc) (simp_all add: link_step_eq)

lemma collect_links_eq:
  "collect_links soup = map link_line (filter link_kept (take 15 (find_all is_anchor_with_href soup)))"
  by (simp add: collect_links_def fold_link_step)

section \<open>Headings\<close>

lemma py_str_digits:
  "py_str (Suc 0) = ''1''" "py_str 2 = ''2''" "py_str 3 = ''3''"
  "py_str 4 = ''4''" "py_str 5 = ''5''" "py_str 6 = ''6''"
  by code_simp+

lemma fold_heading_level:
  "fold (\<lambda>heading acc'. acc' @ [heading_line level heading]) hs acc
     = acc @ map (heading_line level) hs"
  by (induction hs arbitrary: acc) simp_all

lemma fold_heading_levels:
  "fold (\<lambda>level acc.
           fold (\<lambda>heading acc'. acc' @ [heading_line level heading])
                (find_all (tag_named (''h'' @ py_str level)) soup) acc) levels acc0
     = acc0 @ concat (map (\<lambda>level. map (heading_line level)
                                      (find_all (tag_named (''h'' @ py_str level)) soup)) levels)"
  by (induction levels arbitrary: acc0) (simp_all add: fold_heading_level)

lemma levels_1_to_6: "[1..<7] = [1, 2, 3, 4, 5, 6::nat]"
  by code_simp

lemma collect_headings_eq:
  "collect_headings soup = concat (map (level_entries soup) heading_levels)"
  unfolding collect_headings_def fold_heading_levels levels_1_to_6
  by (simp add: py_str_digits level_entries_def heading_line_def heading_levels_def)

section \<open>Answering and the conversation history\<close>

lemma get_response_cases:
  "client (build_messages self q) = Raises e \<Longrightarrow>
     get_response client self q = (error_prefix @ e, self)"
  "client (build_messages self q) = Completion [] \<Longrightarrow>
     get_response client self q = (error_prefix @ index_error, self)"
  "client (build_messages self q) = Completion (None # rest) \<Longrightarrow>
     get_response client self q = (error_prefix @ none_strip_error, self)"
  "client (build_messages self q) = Completion (Some c # rest) \<Longrightarrow>
     get_response client self q
       = (py_strip c,
          self\<lparr>conversation_history := conversation_history self
                 @ [\<lparr>role = ''user'', content = q\<rparr>,
                    \<lparr>role = ''assistant'', content = py_strip c\<rparr>]\<rparr>)"
  by (simp_all add: get_response_def try_body_def Let_def)

lemma not_succeeds_cases:
  "\<not> succeeds r \<Longrightarrow> (\<exists>e. r = Raises e) \<or> r = Completion [] \<or> (\<exists>rest. r = Completion (None # rest))"
  by (auto simp: succeeds_def split: api_result.splits list.splits option.splits)

lemma succeeds_cases:
  "succeeds r \<Longrightarrow> \<exists>c rest. r = Completion (Some c # rest)"
  by (auto simp: succeeds_def split: api_result.splits list.splits option.splits)

lemma get_response_history:
  "conversation_history (snd (get_response client self q))
     = (if succeeds (client (build_messages self q))
        then conversation_history self
             @ [\<lparr>role = ''user'', content = q\<rparr>,
                \<lparr>role = ''assistant'',
                 content = fst (get_response client self q)\<rparr>]
        else conversation_history self)"
proof (cases "succeeds (client (build_messages self q))")
  case True
  from succeeds_cases[OF this] obtain c rest where
    "client (build_messages self q) = Completion (Some c # rest)" by blast
  with True show ?thesis by (simp add: get_response_cases)
next
  case False
  from not_succeeds_cases[OF this] have "snd (get_response client self q) = self"
    by (auto simp: get_response_cases)
  with False show ?thesis by simp
qed

lemma run_calls_even:
  "even (length (conversation_history self)) \<Longrightarrow>
     even (length (conversation_history (run_calls self calls)))"
proof (induction calls arbitrary: self)
  case Nil
  then show ?case by simp
next
  case (Cons c calls)
  show ?case
  proof (cases c)
    case (Answer q client)
    have "even (length (conversation_history (snd (get_response client self q))))"
      using Cons.prems by (simp add: get_response_history)
    from Cons.IH[OF this] Answer show ?thesis by simp
  next
    case Clear
    have "even (length (conversation_history (clear_history self)))"
      by (simp add: clear_history_def)
    from Cons.IH[OF this] Clear show ?thesis by simp
  qed
qed

lemma last_entries_suffix:
  "\<exists>older. xs = older @ last_entries n xs"
  by (metis append_take_drop_id last_entries_def)

lemma last_entries_length: "length (last_entries n xs) = min n (length xs)"
  by (simp add: last_entries_def)



text \<open>
  Claim C7. After any sequence of answer and clear calls that starts from the empty
  history the length of the history is even. A successful answer call appends exactly
  two entries, the user's question and then the assistant's answer; a failed one
  appends nothing; clearing empties the history. The history part of every assembled
  prompt is the last 10 entries of the history, or all of it when it is shorter, so
  never more than 10.
\<close>

theorem history_pairs_and_window:
  "(conversation_history self = [] \<longrightarrow>
      even (length (conversation_history (run_calls self calls))))
   \<and> (succeeds (client (build_messages self q)) \<longrightarrow>
        conversation_history (snd (get_response client self q))
          = conversation_history self
            @ [\<lparr>role = ''user'', content = q\<rparr>,
               \<lparr>role = ''assistant'', content = fst (get_response client self q)\<rparr>]
        \<and> length (conversation_history (snd (get_response client self q)))
            = length (conversation_history self) + 2)
   \<and> (\<not> succeeds (client (build_messages self q)) \<longrightarrow>
        conversation_history (snd (get_response client self q)) = conversation_history self)
   \<and> conversation_history (clear_history self) = []
   \<and> (\<exists>window older.
         build_messages self q
           = \<lparr>role = ''system'', content = system_message (website_content self)\<rparr>
             # window @ [\<lparr>role = ''user'', content = q\<rparr>]
         \<and> conversation_history self = older @ window
         \<and> length window = min 10 (length (conversation_history self))
         \<and> length window \<le> 10)"
proof -
  have a: "conversation_history self = [] \<longrightarrow>
      even (length (conversation_history (run_calls self calls)))"
    by (simp add: run_calls_even)
  have b: "succeeds (client (build_messages self q)) \<longrightarrow>
        conversation_history (snd (get_response client self q))
          = conversation_history self
            @ [\<lparr>role = ''user'', content = q\<rparr>,
               \<lparr>role = ''assistant'', content = fst (get_response client self q)\<rparr>]
        \<and> length (conversation_history (snd (get_response client self q)))
            = length (conversation_history self) + 2"
    by (simp add: get_response_history)
  have c: "\<not> succeeds (client (build_messages self q)) \<longrightarrow>
        conversation_history (snd (get_response client self q)) = conversation_history self"
    by (simp add: get_response_history)
  have d: "conversation_history (clear_history self) = []"
    by (simp add: clear_history_def)
  obtain older where o: "conversation_history self = older @ last_entries 10 (conversation_history self)"
    using last_entries_suffix by blast
  have e: "\<exists>window older.
         build_messages self q
           = \<lparr>role = ''system'', content = system_message (website_content self)\<rparr>
             # window @ [\<lparr>role = ''user'', content = q\<rparr>]
         \<and> conversation_history self = older @ window
         \<and> length window = min 10 (length (conversation_history self))
         \<and> length window \<le> 10"
  proof (intro exI conjI)
    show "build_messages self q
           = \<lparr>role = ''system'', content = system_message (website_content self)\<rparr>
             # last_entries 10 (conversation_history self) @ [\<lparr>role = ''user'', content = q\<rparr>]"
      by (simp add: build_messages_def)
    show "conversation_history self = older @ last_entries 10 (conversation_history self)"
      by (rule o)
    show "length (last_entries 10 (conversation_history self)) = min 10 (length (conversation_history self))"
      by (rule last_entries_length)
    show "length (last_entries 10 (conversation_history self)) \<le> 10"
      by (simp add: last_entries_length)
  qed
  from a b c d e show ?thesis by blast
qed


theorem history_pairs_and_window_witness:
  "conversation_history new_chatbot = []
   \<and> even (length (conversation_history
        (run_calls new_chatbot
           [Answer ''a'' echo_client, Answer ''b'' timeout_client, Clear, Answer ''c'' echo_client])))
   \<and> succeeds (echo_client (build_messages new_chatbot ''a''))
   \<and> conversation_history (snd (get_response echo_client new_chatbot ''a''))
       = [\<lparr>role = ''user'', content = ''a''\<rparr>, \<lparr>role = ''assistant'', content = ''2''\<rparr>]
   \<and> \<not> succeeds (timeout_client (build_messages (snd (get_response echo_client new_chatbot ''a'')) ''b''))
   \<and> conversation_history
        (snd (get_response timeout_client (snd (get_response echo_client new_chatbot ''a'')) ''b''))
       = conversation_history (snd (get_response echo_client new_chatbot ''a''))
   \<and> length (conversation_history (run_calls new_chatbot (replicate 6 (Answer ''q'' echo_client)))) = 12
   \<and> length (build_messages (run_calls new_chatbot (replicate 6 (Answer ''q'' echo_client))) ''next'') = 12"
proof -
  let ?one = "snd (get_response echo_client new_chatbot ''a'')"
  let ?six = "run_calls new_chatbot (replicate 6 (Answer ''q'' echo_client))"
  have h0: "conversation_history new_chatbot = []"
    by (simp add: new_chatbot_def)
  have s1: "succeeds (echo_client (build_messages new_chatbot ''a''))"
    by (simp add: echo_client_def succeeds_def)
  have f1: "fst (get_response echo_client new_chatbot ''a'') = ''2''"
    by code_simp
  have s2: "\<not> succeeds (timeout_client (build_messages ?one ''b''))"
    by (simp add: timeout_client_def succeeds_def)
  have l6: "length (conversation_history ?six) = 12"
    by code_simp
  note t0 = history_pairs_and_window [of new_chatbot
      "[Answer ''a'' echo_client, Answer ''b'' timeout_client, Clear, Answer ''c'' echo_client]"
      echo_client "''a''"]
  from t0 h0 have ev: "even (length (conversation_history
        (run_calls new_chatbot
           [Answer ''a'' echo_client, Answer ''b'' timeout_client, Clear, Answer ''c'' echo_client])))"
    by blast
  from t0 s1 have "conversation_history ?one
       = conversation_history new_chatbot
         @ [\<lparr>role = ''user'', content = ''a''\<rparr>,
            \<lparr>role = ''assistant'', content = fst (get_response echo_client new_chatbot ''a'')\<rparr>]"
    by blast
  with h0 f1 have c1: "conversation_history ?one
       = [\<lparr>role = ''user'', content = ''a''\<rparr>, \<lparr>role = ''assistant'', content = ''2''\<rparr>]"
    by simp
  from history_pairs_and_window [of ?one "[]" timeout_client "''b''"] s2
  have c2: "conversation_history (snd (get_response timeout_client ?one ''b''))
            = conversation_history ?one"
    by blast
  from history_pairs_and_window [of ?six "[]" echo_client "''next''"]
  obtain window older where w:
      "build_messages ?six ''next''
         = \<lparr>role = ''system'', content = system_message (website_content ?six)\<rparr>
           # window @ [\<lparr>role = ''user'', content = ''next''\<rparr>]"
      "length window = min 10 (length (conversation_history ?six))"
    by blast
  from w(2) l6 have "length window = 10" by simp
  with w(1) have b6: "length (build_messages ?six ''next'') = 12" by simp
  from h0 ev s1 c1 s2 c2 l6 b6 show ?thesis by blast
qed

section \<open>The shape of the extraction record\<close>

lemma py_strip_edges: "py_strip s \<noteq> [] \<Longrightarrow> edges_ok (py_strip s)"
proof -
  let ?u = "dropWhile py_isspace s"
  let ?v = "dropWhile py_isspace (rev ?u)"
  assume ne: "py_strip s \<noteq> []"
  then have v: "?v \<noteq> []" by (simp add: py_strip_def)
  have u: "?u \<noteq> []"
  proof
    assume "?u = []"
    then have "?v = []" by (simp only: rev.simps dropWhile.simps)
    with v show False by contradiction
  qed
  have hv: "\<not> py_isspace (hd ?v)" using v by (rule hd_dropWhile)
  have hu: "\<not> py_isspace (hd ?u)" using u by (rule hd_dropWhile)
  have "rev ?u = takeWhile py_isspace (rev ?u) @ ?v" by simp
  then have "last (rev ?u) = last (takeWhile py_isspace (rev ?u) @ ?v)" by simp
  also have "\<dots> = last ?v" using v by (rule last_appendR)
  finally have lv: "last ?v = hd ?u" using u by (simp add: last_rev)
  have "hd (py_strip s) = last ?v" using v by (simp add: py_strip_def hd_rev)
  moreover have "last (py_strip s) = hd ?v" using v by (simp add: py_strip_def last_rev)
  ultimately show ?thesis using ne hv hu lv by (simp add: edges_ok_def)
qed

lemma edges_ok_strip: "edges_ok s \<Longrightarrow> py_strip s = s"
proof -
  assume e: "edges_ok s"
  then have a: "dropWhile py_isspace s = s"
    by (simp add: edges_ok_def dropWhile_eq_self_iff)
  from e have "\<not> py_isspace (hd (rev s))" by (simp add: edges_ok_def hd_rev)
  then have "dropWhile py_isspace (rev s) = rev s"
    by (simp add: dropWhile_eq_self_iff)
  with a show ?thesis by (simp add: py_strip_def)
qed

lemma py_strip_Nil [simp]: "py_strip [] = []"
  by (simp add: py_strip_def)

lemma all_strings_edges: "t \<in> set (all_strings True xs) \<Longrightarrow> edges_ok t"
  by (induction True xs rule: all_strings.induct) (auto simp: py_strip_edges split: if_splits)

lemma py_join_edges:
  "xs \<noteq> [] \<Longrightarrow> \<forall>t\<in>set xs. edges_ok t \<Longrightarrow> edges_ok (py_join sep xs)"
proof (induction sep xs rule: py_join.induct)
  case (3 sep x y r)
  then have r: "edges_ok (py_join sep (y # r))" by simp
  from 3 have x: "edges_ok x" by simp
  from x r show ?case by (simp add: edges_ok_def)
qed simp_all

lemma py_join_nonempty:
  "xs \<noteq> [] \<Longrightarrow> \<forall>t\<in>set xs. t \<noteq> [] \<Longrightarrow> py_join sep xs \<noteq> []"
  by (induction sep xs rule: py_join.induct) simp_all

lemma get_text_edges: "get_text sep True x = [] \<or> edges_ok (get_text sep True x)"
proof (cases "all_strings True (descendants x) = []")
  case True
  then show ?thesis by (simp add: get_text_def)
next
  case False
  then have "edges_ok (py_join sep (all_strings True (descendants x)))"
    by (intro py_join_edges) (auto intro: all_strings_edges)
  then show ?thesis by (simp add: get_text_def)
qed

lemma clean_lines_edges: "clean_lines t = [] \<or> edges_ok (clean_lines t)"
proof -
  let ?ls = "map py_strip (filter (\<lambda>line. py_strip line \<noteq> []) (py_split (CHR 0x0A) t))"
  show ?thesis
  proof (cases "?ls = []")
    case True
    then show ?thesis by (simp add: clean_lines_def)
  next
    case False
    have "\<forall>l\<in>set ?ls. edges_ok l" by (auto intro: py_strip_edges)
    with False have "edges_ok (py_join nl ?ls)" by (intro py_join_edges)
    then show ?thesis by (simp add: clean_lines_def)
  qed
qed

lemma field_ok_edges: "edges_ok s \<Longrightarrow> field_ok sentinel s"
  by (simp add: field_ok_def edges_ok_strip) (simp add: edges_ok_def)

lemma title_trimmed: "py_strip (extract_title soup) = extract_title soup"
proof (cases "find_first (tag_named ''title'') soup")
  case None
  have "py_strip no_title = no_title" by code_simp
  with None show ?thesis by (simp add: extract_title_def)
next
  case (Some t)
  from get_text_edges[of "[]" t] have "py_strip (get_text [] True t) = get_text [] True t"
    by (auto simp: edges_ok_strip)
  with Some show ?thesis by (simp add: extract_title_def)
qed

lemma description_nonempty: "extract_description soup \<noteq> []"
  by (simp add: extract_description_def no_description_def split: option.splits)

lemma main_content_shape:
  "fst (extract_main_content soup) \<noteq> []
   \<and> (length (fst (extract_main_content soup)) < 3000
        \<longrightarrow> field_ok no_main_content (fst (extract_main_content soup)))"
proof -
  let ?s = "main_content_source (decompose_all main_content_removed soup)"
  show ?thesis
  proof (cases ?s)
    case None
    then show ?thesis
      by (simp add: extract_main_content_def Let_def field_ok_def) (simp add: no_main_content_def)
  next
    case (Some e)
    show ?thesis
    proof (cases "get_text nl True e = []")
      case True
      with Some show ?thesis
        by (simp add: extract_main_content_def Let_def field_ok_def) (simp add: no_main_content_def)
    next
      case False
      with get_text_edges[of nl e] have ok: "edges_ok (get_text nl True e)" by simp
      from Some False have m: "fst (extract_main_content soup) = take 3000 (get_text nl True e)"
        by (simp add: extract_main_content_def Let_def)
      have a: "take 3000 (get_text nl True e) \<noteq> []" using False by simp
      have b: "length (take 3000 (get_text nl True e)) < 3000
               \<longrightarrow> field_ok no_main_content (take 3000 (get_text nl True e))"
      proof
        assume "length (take 3000 (get_text nl True e)) < 3000"
        then have "take 3000 (get_text nl True e) = get_text nl True e" by simp
        with ok show "field_ok no_main_content (take 3000 (get_text nl True e))"
          by (simp add: field_ok_edges)
      qed
      from m a b show ?thesis by simp
    qed
  qed
qed

lemma full_text_shape:
  "fst (extract_full_text soup) \<noteq> []
   \<and> (length (fst (extract_full_text soup)) < 5000
        \<longrightarrow> field_ok no_text (fst (extract_full_text soup)))"
proof -
  let ?t = "clean_lines (get_text nl True (decompose_all full_text_removed soup))"
  show ?thesis
  proof (cases "?t = []")
    case True
    then show ?thesis
      by (simp add: extract_full_text_def Let_def field_ok_def) (simp add: no_text_def)
  next
    case False
    with clean_lines_edges[of "get_text nl True (decompose_all full_text_removed soup)"]
    have ok: "edges_ok ?t" by simp
    from False have m: "fst (extract_full_text soup) = take 5000 ?t"
      by (simp add: extract_full_text_def Let_def)
    have a: "take 5000 ?t \<noteq> []" using False by simp
    have b: "length (take 5000 ?t) < 5000 \<longrightarrow> field_ok no_text (take 5000 ?t)"
    proof
      assume "length (take 5000 ?t) < 5000"
      then have "take 5000 ?t = ?t" by simp
      with ok show "field_ok no_text (take 5000 ?t)" by (simp add: field_ok_edges)
    qed
    from m a b show ?thesis by simp
  qed
qed

lemma headings_nonempty: "extract_headings soup \<noteq> []"
proof (cases "collect_headings soup = []")
  case True
  then show ?thesis by (simp add: extract_headings_def no_headings_def)
next
  case False
  have "\<forall>e\<in>set (collect_headings soup). e \<noteq> []"
    by (auto simp: collect_headings_eq level_entries_def heading_levels_def)
  then have "\<forall>e\<in>set (take 20 (collect_headings soup)). e \<noteq> []"
    by (auto dest: in_set_takeD)
  moreover have "take 20 (collect_headings soup) \<noteq> []" using False by simp
  ultimately have "py_join nl (take 20 (collect_headings soup)) \<noteq> []"
    by (intro py_join_nonempty)
  with False show ?thesis by (simp add: extract_headings_def Let_def)
qed

lemma links_nonempty: "extract_links soup \<noteq> []"
proof (cases "collect_links soup = []")
  case True
  then show ?thesis by (simp add: extract_links_def no_links_def)
next
  case False
  have "\<forall>e\<in>set (collect_links soup). e \<noteq> []"
    by (auto simp: collect_links_eq link_line_def)
  with False have "py_join nl (collect_links soup) \<noteq> []"
    by (intro py_join_nonempty)
  with False show ?thesis by (simp add: extract_links_def Let_def)
qed

text \<open>
  Claim C3 says that each of the six fields is its sentinel or non-empty trimmed text.
  The description is the \<open>content\<close> attribute as it is written, with no \<open>strip\<close>:
  on \<open>padded_page\<close> it comes back with the spaces around it, neither the sentinel nor
  trimmed.
\<close>

theorem fields_sentinel_or_trimmed_counterexample:
  "fst (extract_all padded_page) ''description'' = Some '' Acme Corp ''
   \<and> \<not> field_ok no_description '' Acme Corp ''"
  by code_simp

text \<open>
  Apart from that, a title element without text gives the empty string as title, where
  the other extractors fall back to their sentinel.
\<close>

lemma empty_title_gives_empty_field:
  "fst (extract_all (Tag ''[document]'' [] [Tag ''title'' [] []])) ''title'' = Some []"
  by code_simp

text \<open>
  Claim C3, amended. For every document the extractor processes, the record has exactly
  the six keys title, description, main_content, headings, links and full_text. Each of
  description, main_content, headings, links and full_text is non-empty text: its
  sentinel or what was extracted. The title is text that \<open>strip\<close> leaves as it is,
  and the sentinel when the document has no title element. A main_content shorter than
  3000 characters and a full_text shorter than 5000 are the sentinel or non-empty
  trimmed text; cut at the cap they may end in whitespace, as description, headings and
  links may in any case.
\<close>

theorem record_has_six_fields:
  "scrape_website (Inr soup) = fst (extract_all soup)
   \<and> dom (fst (extract_all soup))
       = {''title'', ''description'', ''main_content'', ''headings'', ''links'', ''full_text''}
   \<and> (\<forall>k \<in> {''description'', ''main_content'', ''headings'', ''links'', ''full_text''}.
        \<exists>v. fst (extract_all soup) k = Some v \<and> v \<noteq> [])
   \<and> (\<exists>t. fst (extract_all soup) ''title'' = Some t \<and> py_strip t = t
          \<and> (find_first (tag_named ''title'') soup = None \<longrightarrow> t = no_title))
   \<and> (\<exists>m. fst (extract_all soup) ''main_content'' = Some m
          \<and> (length m < 3000 \<longrightarrow> field_ok no_main_content m))
   \<and> (\<exists>f. fst (extract_all soup) ''full_text'' = Some f
          \<and> (length f < 5000 \<longrightarrow> field_ok no_text f))"
proof -
  have a: "scrape_website (Inr soup) = fst (extract_all soup)"
    by (simp add: scrape_website_def)
  have b: "dom (fst (extract_all soup))
       = {''title'', ''description'', ''main_content'', ''headings'', ''links'', ''full_text''}"
    by (auto simp: extract_all_fst)
  have c: "\<forall>k \<in> {''description'', ''main_content'', ''headings'', ''links'', ''full_text''}.
        \<exists>v. fst (extract_all soup) k = Some v \<and> v \<noteq> []"
    using main_content_shape[of soup] full_text_shape[of "decompose_all main_content_removed soup"]
    by (simp add: extract_all_fst description_nonempty headings_nonempty links_nonempty)
  have d: "\<exists>t. fst (extract_all soup) ''title'' = Some t \<and> py_strip t = t
          \<and> (find_first (tag_named ''title'') soup = None \<longrightarrow> t = no_title)"
    by (simp add: extract_all_fst title_trimmed) (simp add: extract_title_def)
  have e: "\<exists>m. fst (extract_all soup) ''main_content'' = Some m
          \<and> (length m < 3000 \<longrightarrow> field_ok no_main_content m)"
    using main_content_shape[of soup] by (simp add: extract_all_fst)
  have f: "\<exists>f. fst (extract_all soup) ''full_text'' = Some f
          \<and> (length f < 5000 \<longrightarrow> field_ok no_text f)"
    using full_text_shape[of "decompose_all main_content_removed soup"]
    by (simp add: extract_all_fst)
  from a b c d e f show ?thesis by blast
qed

theorem record_has_six_fields_witness:
  "find_first (tag_named ''title'') plain_page = None
   \<and> fst (extract_all plain_page) ''title'' = Some no_title
   \<and> fst (extract_all plain_page) ''main_content'' = Some (''News'' @ nl @ ''More'')
   \<and> length (''News'' @ nl @ ''More'') < 3000
   \<and> field_ok no_main_content (''News'' @ nl @ ''More'')
   \<and> fst (extract_all plain_page) ''full_text'' = Some (''News'' @ nl @ ''More'')
   \<and> field_ok no_text (''News'' @ nl @ ''More'')
   \<and> dom (scrape_website (Inr plain_page))
       = {''title'', ''description'', ''main_content'', ''headings'', ''links'', ''full_text''}"
proof -
  have h: "find_first (tag_named ''title'') plain_page = None"
    by code_simp
  have m: "fst (extract_all plain_page) ''main_content'' = Some (''News'' @ nl @ ''More'')"
    by code_simp
  have f: "fst (extract_all plain_page) ''full_text'' = Some (''News'' @ nl @ ''More'')"
    by code_simp
  have l: "length (''News'' @ nl @ ''More'') < 3000" "length (''News'' @ nl @ ''More'') < 5000"
    by (simp_all add: nl_def)
  note t = record_has_six_fields [of plain_page]
  note t1 = t [THEN conjunct1]
  note t2 = t [THEN conjunct2, THEN conjunct1]
  note t4 = t [THEN conjunct2, THEN conjunct2, THEN conjunct2, THEN conjunct1]
  note t5 = t [THEN conjunct2, THEN conjunct2, THEN conjunct2, THEN conjunct2, THEN conjunct1]
  note t6 = t [THEN conjunct2, THEN conjunct2, THEN conjunct2, THEN conjunct2, THEN conjunct2]
  from t4 obtain ti where ti: "fst (extract_all plain_page) ''title'' = Some ti"
      "find_first (tag_named ''title'') plain_page = None \<longrightarrow> ti = no_title"
    by (elim exE conjE)
  from ti(2) h have "ti = no_title" by (rule mp)
  with ti(1) have a: "fst (extract_all plain_page) ''title'' = Some no_title" by (simp only:)
  from t5 obtain mc where mc: "fst (extract_all plain_page) ''main_content'' = Some mc"
      "length mc < 3000 \<longrightarrow> field_ok no_main_content mc"
    by (elim exE conjE)
  from mc(1) m have "mc = ''News'' @ nl @ ''More''" by (simp only: option.inject)
  with mc(2) l(1) have b: "field_ok no_main_content (''News'' @ nl @ ''More'')" by (simp only:)
  from t6 obtain ft where ft: "fst (extract_all plain_page) ''full_text'' = Some ft"
      "length ft < 5000 \<longrightarrow> field_ok no_text ft"
    by (elim exE conjE)
  from ft(1) f have "ft = ''News'' @ nl @ ''More''" by (simp only: option.inject)
  with ft(2) l(2) have c: "field_ok no_text (''News'' @ nl @ ''More'')" by (simp only:)
  from t1 t2 have d: "dom (scrape_website (Inr plain_page))
       = {''title'', ''description'', ''main_content'', ''headings'', ''links'', ''full_text''}"
    by (simp only:)
  show ?thesis
    by (intro conjI) (rule h a m l(1) b f c d)+
qed

section \<open>The fields read after the removal, in terms of the document\<close>

lemma kept_subtree_removed: "name_in ns c \<Longrightarrow> kept_subtree ns c = []"
  by (cases c) simp_all

lemma concat_map_filter_cong:
  "(\<And>c. c \<in> set cs \<Longrightarrow> P c \<Longrightarrow> f c = g c) \<Longrightarrow> (\<And>c. c \<in> set cs \<Longrightarrow> \<not> P c \<Longrightarrow> g c = []) \<Longrightarrow>
     concat (map f (filter P cs)) = concat (map g cs)"
  by (induction cs) auto

lemma subtree_decompose_all:
  "\<not> name_in ns x \<Longrightarrow> subtree (decompose_all ns x) = map (decompose_all ns) (kept_subtree ns x)"
proof (induction x)
  case (Tag n a cs)
  then have n: "n \<notin> set ns" by simp
  have "concat (map (\<lambda>c. subtree (decompose_all ns c)) (filter (\<lambda>c. \<not> name_in ns c) cs))
        = concat (map (\<lambda>c. map (decompose_all ns) (kept_subtree ns c)) cs)"
    using Tag.IH by (intro concat_map_filter_cong) (auto simp: kept_subtree_removed)
  then show ?case using n by (simp add: comp_def map_concat)
qed simp_all

lemma descendants_decompose_all:
  "descendants (decompose_all ns x) = map (decompose_all ns) (kept_descendants ns x)"
proof (cases x)
  case (Tag n a cs)
  have "concat (map (\<lambda>c. subtree (decompose_all ns c)) (filter (\<lambda>c. \<not> name_in ns c) cs))
        = concat (map (\<lambda>c. map (decompose_all ns) (kept_subtree ns c)) cs)"
    by (intro concat_map_filter_cong) (auto simp: kept_subtree_removed subtree_decompose_all)
  then show ?thesis using Tag
    by (simp add: descendants_def kept_descendants_def comp_def map_concat)
qed (simp_all add: descendants_def kept_descendants_def)

lemma all_strings_decompose_all:
  "all_strings strp (map (decompose_all ns) ys) = all_strings strp ys"
proof (induction ys)
  case Nil
  then show ?case by simp
next
  case (Cons y ys)
  then show ?case by (cases y; cases strp; simp)
qed

lemma get_text_decompose_all:
  "get_text sep strp (decompose_all ns x) = py_join sep (all_strings strp (kept_descendants ns x))"
  by (simp add: get_text_def descendants_decompose_all all_strings_decompose_all)

lemma get_text_kept_tree:
  "get_text sep True (decompose_all main_content_removed (decompose_all main_content_removed x))
     = visible_text sep x"
  by (simp add: decompose_all_absorb get_text_decompose_all visible_text_def)

lemma tag_named_decompose_all [simp]: "tag_named t (decompose_all ns x) = tag_named t x"
  by (cases x) simp_all

lemma get_attr_decompose_all [simp]: "get_attr (decompose_all ns x) k = get_attr x k"
  by (cases x) simp_all

lemma find_all_decompose_all:
  "(\<And>y. p (decompose_all ns y) = p y) \<Longrightarrow>
     find_all p (decompose_all ns x) = map (decompose_all ns) (filter p (kept_descendants ns x))"
  by (simp add: find_all_def descendants_decompose_all filter_map comp_def)

lemma kept_subtree_clean: "y \<in> set (kept_subtree ns x) \<Longrightarrow> \<not> name_in ns y \<and> y \<in> set (subtree x)"
proof (induction x arbitrary: y)
  case (Tag n a cs)
  then show ?case by (auto split: if_splits)
qed auto

lemma kept_descendants_clean:
  "y \<in> set (kept_descendants ns x) \<Longrightarrow> \<not> name_in ns y \<and> y \<in> set (descendants x)"
  by (auto simp: kept_descendants_def descendants_def dest: kept_subtree_clean)

lemma get_text_stripped_element:
  "get_text sep True (decompose_all main_content_removed h) = visible_text sep h"
  by (simp add: get_text_decompose_all visible_text_def)

lemma link_kept_stripped: "link_kept (decompose_all main_content_removed a) = visible_link_kept a"
  by (simp add: link_kept_def visible_link_kept_def get_text_stripped_element split: option.splits)

lemma link_line_stripped: "link_line (decompose_all main_content_removed a) = visible_link_line a"
  by (simp add: link_line_def visible_link_line_def get_text_stripped_element)

lemma is_anchor_decompose_all [simp]:
  "is_anchor_with_href (decompose_all ns y) = is_anchor_with_href y"
  by (simp add: is_anchor_with_href_def)

lemma collect_links_stripped:
  "collect_links (decompose_all main_content_removed soup) = visible_links soup"
  by (simp add: collect_links_eq find_all_decompose_all visible_links_def visible_anchors_def
      take_map filter_map comp_def link_kept_stripped link_line_stripped)

lemma record_links:
  "fst (extract_all soup) ''links''
     = Some (if visible_links soup = [] then no_links else py_join nl (visible_links soup))"
  by (simp add: extract_all_fst extract_links_def Let_def collect_links_stripped)

lemma level_entries_stripped:
  "level_entries (decompose_all main_content_removed soup) = visible_level_entries soup"
  by (rule ext) (simp add: level_entries_def visible_level_entries_def find_all_decompose_all comp_def
      get_text_stripped_element)

lemma collect_headings_stripped:
  "collect_headings (decompose_all main_content_removed soup) = visible_headings soup"
  by (simp add: collect_headings_eq visible_headings_def level_entries_stripped)

lemma record_headings:
  "fst (extract_all soup) ''headings''
     = Some (if visible_headings soup = [] then no_headings
             else py_join nl (take 20 (visible_headings soup)))"
  by (simp add: extract_all_fst extract_headings_def Let_def collect_headings_stripped)


text \<open>
  Claim C5 speaks of the first 15 anchors with an href of the document. The links are
  read after main-content extraction has removed the nav, header and footer elements
  from the shared tree: on \<open>nav_fragments_page\<close> the first 15 anchors of the document
  are the fragment anchors of the navigation bar, all of them dropped by the filter, and
  yet the record has the link that follows them.
\<close>

theorem links_window_in_whole_document_counterexample:
  "take 15 (find_all is_anchor_with_href nav_fragments_page) = replicate 15 fragment_anchor
   \<and> filter link_kept (take 15 (find_all is_anchor_with_href nav_fragments_page)) = []
   \<and> extract_links nav_fragments_page = no_links
   \<and> fst (extract_all nav_fragments_page) ''links'' = Some ''About: /about''"
  by code_simp

text \<open>
  Claim C5, amended. For every document, the links field of the record is built from
  exactly the first 15 anchors with an href, in document order, among the anchors that
  lie outside script, style, nav, footer and header elements, a window fixed before any
  filtering. A candidate whose visible text (its text outside such elements) is empty
  or whose href starts with \<open>#\<close> is dropped and nothing takes its place, so the
  field has at most 15 entries, each the non-empty text of a candidate, a colon and its
  href, which is no fragment; the field depends on the document through that window
  only, and it is the sentinel when no candidate of the window is kept.
\<close>

theorem links_from_first_fifteen_visible_anchors:
  "fst (extract_all soup) ''links''
     = Some (if filter visible_link_kept (take 15 (visible_anchors soup)) = [] then no_links
             else py_join nl (visible_links soup))
   \<and> visible_links soup
       = map visible_link_line (filter visible_link_kept (take 15 (visible_anchors soup)))
   \<and> visible_anchors soup
       = filter is_anchor_with_href (kept_descendants main_content_removed soup)
   \<and> length (visible_links soup) \<le> 15
   \<and> (\<forall>e \<in> set (visible_links soup).
        \<exists>a text href. a \<in> set (take 15 (visible_anchors soup))
           \<and> get_attr a ''href'' = Some href \<and> text = visible_text [] a
           \<and> text \<noteq> [] \<and> \<not> startswith href ''#'' \<and> e = text @ '': '' @ href)
   \<and> (\<forall>a \<in> set (visible_anchors soup).
        a \<in> set (find_all is_anchor_with_href soup) \<and> \<not> name_in main_content_removed a)
   \<and> (take 15 (visible_anchors soup) = take 15 (visible_anchors soup')
        \<longrightarrow> fst (extract_all soup) ''links'' = fst (extract_all soup') ''links'')"
proof -
  let ?c = "take 15 (visible_anchors soup)"
  have field: "fst (extract_all soup) ''links''
     = Some (if filter visible_link_kept ?c = [] then no_links
             else py_join nl (visible_links soup))"
    by (simp add: record_links) (simp add: visible_links_def)
  have len: "length (visible_links soup) \<le> 15"
  proof -
    have "length (filter visible_link_kept ?c) \<le> length ?c" by (rule length_filter_le)
    also have "\<dots> \<le> 15" by simp
    finally show ?thesis by (simp add: visible_links_def)
  qed
  have entries: "\<forall>e \<in> set (visible_links soup).
        \<exists>a text href. a \<in> set ?c
           \<and> get_attr a ''href'' = Some href \<and> text = visible_text [] a
           \<and> text \<noteq> [] \<and> \<not> startswith href ''#'' \<and> e = text @ '': '' @ href"
  proof
    fix e assume "e \<in> set (visible_links soup)"
    then obtain a where a: "a \<in> set ?c" "visible_link_kept a" "e = visible_link_line a"
      by (auto simp: visible_links_def)
    from a(2) obtain href where h: "get_attr a ''href'' = Some href"
        "visible_text [] a \<noteq> []" "\<not> startswith href ''#''"
      by (auto simp: visible_link_kept_def split: option.splits)
    with a(3) have "e = visible_text [] a @ '': '' @ href" by (simp add: visible_link_line_def)
    with a(1) h show "\<exists>a text href. a \<in> set ?c
           \<and> get_attr a ''href'' = Some href \<and> text = visible_text [] a
           \<and> text \<noteq> [] \<and> \<not> startswith href ''#'' \<and> e = text @ '': '' @ href"
      by blast
  qed
  have outside: "\<forall>a \<in> set (visible_anchors soup).
        a \<in> set (find_all is_anchor_with_href soup) \<and> \<not> name_in main_content_removed a"
    by (auto simp: visible_anchors_def find_all_def dest: kept_descendants_clean)
  have window: "?c = take 15 (visible_anchors soup')
        \<longrightarrow> fst (extract_all soup) ''links'' = fst (extract_all soup') ''links''"
    by (simp add: record_links visible_links_def)
  show ?thesis
    by (intro conjI) (rule field visible_links_def visible_anchors_def len entries outside window)+
qed

theorem links_from_first_fifteen_visible_anchors_witness:
  "length (visible_anchors sixteen_anchors_page) = 16
   \<and> visible_anchors sixteen_anchors_page ! 15
       = Tag ''a'' [(''href'', ''/about'')] [NavigableString ''About'']
   \<and> visible_link_kept (Tag ''a'' [(''href'', ''/about'')] [NavigableString ''About''])
   \<and> filter visible_link_kept (take 15 (visible_anchors sixteen_anchors_page)) = []
   \<and> fst (extract_all sixteen_anchors_page) ''links'' = Some no_links
   \<and> visible_anchors nav_text_page
       = [Tag ''a'' [(''href'', ''/about'')]
            [NavigableString ''About'', Tag ''script'' [] [NavigableString ''track()'']]]
   \<and> fst (extract_all nav_text_page) ''links'' = Some ''About: /about''"
proof -
  have a: "length (visible_anchors sixteen_anchors_page) = 16"
    by code_simp
  have b: "visible_anchors sixteen_anchors_page ! 15
       = Tag ''a'' [(''href'', ''/about'')] [NavigableString ''About'']"
    by code_simp
  have c: "visible_link_kept (Tag ''a'' [(''href'', ''/about'')] [NavigableString ''About''])"
    by code_simp
  have d: "filter visible_link_kept (take 15 (visible_anchors sixteen_anchors_page)) = []"
    by code_simp
  have e: "visible_anchors nav_text_page
       = [Tag ''a'' [(''href'', ''/about'')]
            [NavigableString ''About'', Tag ''script'' [] [NavigableString ''track()'']]]"
    by code_simp
  have f: "filter visible_link_kept (take 15 (visible_anchors nav_text_page)) \<noteq> []"
    by code_simp
  have g: "py_join nl (visible_links nav_text_page) = ''About: /about''"
    by code_simp
  from links_from_first_fifteen_visible_anchors [of sixteen_anchors_page, THEN conjunct1] d
  have s: "fst (extract_all sixteen_anchors_page) ''links'' = Some no_links" by simp
  from links_from_first_fifteen_visible_anchors [of nav_text_page, THEN conjunct1] f g
  have p: "fst (extract_all nav_text_page) ''links'' = Some ''About: /about''" by simp
  show ?thesis
    by (intro conjI) (rule a b c d s e p)+
qed

text \<open>
  Claim C8 speaks of the heading elements of the document. The headings are read after
  the header, nav and footer elements have left the shared tree: \<open>header_headings_page\<close>
  has 22 heading elements, 21 of level 1 inside the page header, and the record holds
  the one level-2 heading outside it, not twenty of level 1.
\<close>

theorem headings_cap_in_whole_document_counterexample:
  "length (concat (map (\<lambda>lv. find_all (tag_named (fst lv)) header_headings_page) heading_levels)) = 22
   \<and> take 20 (collect_headings header_headings_page) = replicate 20 ''H1: a''
   \<and> extract_headings header_headings_page = py_join nl (replicate 20 ''H1: a'')
   \<and> fst (extract_all header_headings_page) ''headings'' = Some ''H2: b''"
  by code_simp

text \<open>
  Claim C8, amended. For every document, the headings field of the record holds at most
  20 entries, each the label of a level from 1 to 6 followed by the visible text of a
  heading element of that level that lies outside script, style, nav, footer and header
  elements. The entries are the first 20 of the list that takes the levels in increasing
  order and, within a level, those elements in document order, so with more than 20 of
  them the lower levels fill the cap. The field is the sentinel when the document has no
  heading element outside such elements.
\<close>

theorem headings_lowest_visible_levels_first:
  "fst (extract_all soup) ''headings''
     = Some (if (\<forall>lv \<in> set heading_levels.
                   filter (tag_named (fst lv)) (kept_descendants main_content_removed soup) = [])
             then no_headings
             else py_join nl (take 20 (visible_headings soup)))
   \<and> visible_headings soup = concat (map (visible_level_entries soup) heading_levels)
   \<and> length (take 20 (visible_headings soup)) \<le> 20
   \<and> (\<forall>e \<in> set (take 20 (visible_headings soup)).
        \<exists>lv h. lv \<in> set heading_levels
           \<and> h \<in> set (filter (tag_named (fst lv)) (kept_descendants main_content_removed soup))
           \<and> e = snd lv @ visible_text [] h)
   \<and> (\<forall>h \<in> set (kept_descendants main_content_removed soup).
        h \<in> set (descendants soup) \<and> \<not> name_in main_content_removed h)"
proof -
  have empty: "(visible_headings soup = [])
       = (\<forall>lv \<in> set heading_levels.
            filter (tag_named (fst lv)) (kept_descendants main_content_removed soup) = [])"
    by (simp add: visible_headings_def visible_level_entries_def)
  have field: "fst (extract_all soup) ''headings''
     = Some (if (\<forall>lv \<in> set heading_levels.
                   filter (tag_named (fst lv)) (kept_descendants main_content_removed soup) = [])
             then no_headings
             else py_join nl (take 20 (visible_headings soup)))"
    unfolding empty[symmetric] by (rule record_headings)
  have len: "length (take 20 (visible_headings soup)) \<le> 20"
    by simp
  have entries: "\<forall>e \<in> set (take 20 (visible_headings soup)).
        \<exists>lv h. lv \<in> set heading_levels
           \<and> h \<in> set (filter (tag_named (fst lv)) (kept_descendants main_content_removed soup))
           \<and> e = snd lv @ visible_text [] h"
  proof
    fix e assume "e \<in> set (take 20 (visible_headings soup))"
    then have "e \<in> set (visible_headings soup)" by (rule in_set_takeD)
    then obtain lv where lv: "lv \<in> set heading_levels" "e \<in> set (visible_level_entries soup lv)"
      by (auto simp: visible_headings_def)
    from lv(2) obtain h where
        "h \<in> set (filter (tag_named (fst lv)) (kept_descendants main_content_removed soup))"
        "e = snd lv @ visible_text [] h"
      by (auto simp: visible_level_entries_def)
    with lv(1) show "\<exists>lv h. lv \<in> set heading_levels
           \<and> h \<in> set (filter (tag_named (fst lv)) (kept_descendants main_content_removed soup))
           \<and> e = snd lv @ visible_text [] h"
      by blast
  qed
  have outside: "\<forall>h \<in> set (kept_descendants main_content_removed soup).
        h \<in> set (descendants soup) \<and> \<not> name_in main_content_removed h"
    by (auto dest: kept_descendants_clean)
  show ?thesis
    by (intro conjI) (rule field visible_headings_def len entries outside)+
qed

theorem headings_lowest_visible_levels_first_witness:
  "length (visible_headings many_headings_page) = 22
   \<and> take 20 (visible_headings many_headings_page) = ''H1: a'' # replicate 19 ''H2: b''
   \<and> fst (extract_all many_headings_page) ''headings''
       = Some (py_join nl (''H1: a'' # replicate 19 ''H2: b''))
   \<and> fst (extract_all empty_page) ''headings'' = Some no_headings
   \<and> fst (extract_all nav_text_page) ''headings'' = Some ''H1: Welcome''"
proof -
  have a: "length (visible_headings many_headings_page) = 22"
    by code_simp
  have b: "take 20 (visible_headings many_headings_page) = ''H1: a'' # replicate 19 ''H2: b''"
    by code_simp
  have c: "\<not> (\<forall>lv \<in> set heading_levels.
      filter (tag_named (fst lv)) (kept_descendants main_content_removed many_headings_page) = [])"
    by code_simp
  have d: "\<forall>lv \<in> set heading_levels.
      filter (tag_named (fst lv)) (kept_descendants main_content_removed empty_page) = []"
    by code_simp
  have e: "\<not> (\<forall>lv \<in> set heading_levels.
      filter (tag_named (fst lv)) (kept_descendants main_content_removed nav_text_page) = [])"
    by code_simp
  have f: "py_join nl (take 20 (visible_headings nav_text_page)) = ''H1: Welcome''"
    by code_simp
  from headings_lowest_visible_levels_first [of many_headings_page, THEN conjunct1] b c
  have m: "fst (extract_all many_headings_page) ''headings''
       = Some (py_join nl (''H1: a'' # replicate 19 ''H2: b''))"
    by simp
  from headings_lowest_visible_levels_first [of empty_page, THEN conjunct1] d
  have n: "fst (extract_all empty_page) ''headings'' = Some no_headings"
    by simp
  from headings_lowest_visible_levels_first [of nav_text_page, THEN conjunct1] e f
  have p: "fst (extract_all nav_text_page) ''headings'' = Some ''H1: Welcome''"
    by simp
  show ?thesis
    by (intro conjI) (rule a b m n p)+
qed

lemma name_in_emptied [simp]: "name_in ns (emptied c) = name_in ns c"
  by (cases c) simp_all

lemma name_in_blank_removed [simp]: "name_in ns (blank_removed ms c) = name_in ns c"
  by (cases c) simp_all




end
